theory Spec2Isabelle
  imports Main
begin

section \<open>Strings\<close>

text \<open>
  Go strings are byte sequences, so they are \<^typ>\<open>string\<close> here. The three library
  functions the gateway calls on them are written out: \<open>strings.ToLower\<close>,
  \<open>strings.SplitN\<close> and \<open>strings.Split\<close>, the last two with a one-byte separator, which
  is the only way the gateway calls them.
\<close>

text \<open>
  \<open>lower_char\<close>: the bytes \<open>A\<close> .. \<open>Z\<close> (65 .. 90) move to \<open>a\<close> .. \<open>z\<close>; adding 32
  to such a byte is setting its bit 5. Every other byte is kept. (Go also lowers letters
  beyond ASCII; none of them lowers to a letter of \<open>bearer\<close>, the only word the result
  is compared with.)
\<close>

definition lower_char :: "char \<Rightarrow> char" where
  "lower_char c =
     (if 65 \<le> (of_char c :: nat) \<and> (of_char c :: nat) \<le> 90
      then (case c of Char b0 b1 b2 b3 b4 b5 b6 b7 \<Rightarrow> Char b0 b1 b2 b3 b4 True b6 b7)
      else c)"

definition ToLower :: "string \<Rightarrow> string" where
  "ToLower s = map lower_char s"

text \<open>
  \<open>SplitN s sep n\<close> for \<open>n \<ge> 0\<close>: no parts for \<open>n = 0\<close>, otherwise at most \<open>n\<close> parts,
  the last one being the remainder that is not split any further.
\<close>

fun SplitN :: "string \<Rightarrow> char \<Rightarrow> nat \<Rightarrow> string list" where
  "SplitN s sep 0 = []"
| "SplitN s sep (Suc 0) = [s]"
| "SplitN [] sep (Suc (Suc n)) = [[]]"
| "SplitN (c # cs) sep (Suc (Suc n)) =
     (if c = sep then [] # SplitN cs sep (Suc n)
      else (case SplitN cs sep (Suc (Suc n)) of
              [] \<Rightarrow> [[c]]
            | p # ps \<Rightarrow> (c # p) # ps))"

text \<open>\<open>Split s sep\<close>: all the parts; the empty string has the one part \<open>''''\<close>.\<close>

fun Split :: "string \<Rightarrow> char \<Rightarrow> string list" where
  "Split [] sep = [[]]"
| "Split (c # cs) sep =
     (if c = sep then [] # Split cs sep
      else (case Split cs sep of
              [] \<Rightarrow> [[c]]
            | p # ps \<Rightarrow> (c # p) # ps))"

text \<open>\<open>itoa\<close>: how \<open>fmt\<close> prints an \<open>int\<close> under \<open>%v\<close>, in decimal.\<close>

function digits :: "nat \<Rightarrow> string" where
  "digits n =
     (if n < 10 then [''0123456789'' ! n]
      else digits (n div 10) @ [''0123456789'' ! (n mod 10)])"
  by pat_completeness auto
termination
  by (relation "measure id") auto

declare digits.simps [simp del]

definition itoa :: "int \<Rightarrow> string" where
  "itoa i = (if i < 0 then CHR ''-'' # digits (nat (- i)) else digits (nat i))"


section \<open>Package httperr\<close>

record Error =
  Code :: int
  Message :: string

definition UnAuthorized :: Error where
  "UnAuthorized = \<lparr>Code = 401, Message = ''unauthorized''\<rparr>"

definition Forbidden :: Error where
  "Forbidden = \<lparr>Code = 403, Message = ''forbidden''\<rparr>"

definition NotFound :: Error where
  "NotFound = \<lparr>Code = 404, Message = ''not found''\<rparr>"

definition TooBusy :: Error where
  "TooBusy = \<lparr>Code = 503, Message = ''overloaded''\<rparr>"


section \<open>Package auth: the verifier\<close>

text \<open>
  \<open>AuthResult\<close> and \<open>AuthError\<close> as declared. The artifact of a successful
  authentication is the parsed token; the token type belongs to the JWT library and
  stays a type parameter \<open>'t\<close>.
\<close>

record 't AuthResult =
  Success :: bool
  Artifact :: "'t option"

datatype AuthError = AuthError (msg: string)

text \<open>\<open>JWTAuthenticator\<close> holds the one public key, of the library's type \<open>'k\<close>.\<close>

record 'k JWTAuthenticator =
  key :: 'k

definition NewJWTAuthenticator :: "'k \<Rightarrow> 'k JWTAuthenticator" where
  "NewJWTAuthenticator k = \<lparr>key = k\<rparr>"

text \<open>
  \<open>splitToken\<close>: the credential is cut at its first space. With two parts the first
  must lower to \<open>bearer\<close> and the second is the token; with one part (no space at all)
  the whole credential is the token. \<open>Inl\<close> carries the message of the error.
\<close>

definition splitToken :: "string \<Rightarrow> string + string" where
  "splitToken token =
     (let tokenParts = SplitN token CHR '' '' 2 in
      if length tokenParts = 2 then
        (if ToLower (tokenParts ! 0) = ''bearer'' then Inr (tokenParts ! 1)
         else Inl ''not a bearer token'')
      else Inr token)"

text \<open>
  \<open>jwt.Parse\<close> is the JWT library's: it is the parameter \<open>jwt_Parse\<close>, from the key the
  key function returns and the token text to the pair of results
  \<open>(parsedToken, err)\<close>, each of which may be \<open>nil\<close>. To state which tokens are handed
  to the library at all, \<open>Authenticate\<close> threads the list of the token texts passed to
  \<open>jwt.Parse\<close> so far.
\<close>

definition Authenticate ::
  "('k \<Rightarrow> string \<Rightarrow> 't option \<times> string option) \<Rightarrow> 'k JWTAuthenticator \<Rightarrow> string \<Rightarrow>
   string list \<Rightarrow> ('t AuthResult \<times> AuthError option) \<times> string list" where
  "Authenticate jwt_Parse authenticator creds parsed =
     (case splitToken creds of
        Inl err \<Rightarrow> ((\<lparr>Success = False, Artifact = None\<rparr>, Some (AuthError err)), parsed)
      | Inr token \<Rightarrow>
          (case jwt_Parse (key authenticator) token of
             (parsedToken, Some err) \<Rightarrow>
               ((\<lparr>Success = False, Artifact = None\<rparr>, Some (AuthError err)), parsed @ [token])
           | (None, None) \<Rightarrow>
               ((\<lparr>Success = False, Artifact = None\<rparr>,
                 Some (AuthError ''authentication failed with a nil parsed token'')),
                parsed @ [token])
           | (Some t, None) \<Rightarrow>
               ((\<lparr>Success = True, Artifact = Some t\<rparr>, None), parsed @ [token])))"


section \<open>Package auth: the handler\<close>

text \<open>
  The Go runtime's panics that the gateway's own code can raise: an index past the end
  of a slice, and a call through a \<open>nil\<close> function value.
\<close>

datatype panic = IndexOutOfRange | NilDereference

text \<open>
  Of a request the gateway reads the path of its URL and its header, a map from
  header names to the slices of their values. A slice that is present and empty is
  \<open>Some []\<close>.
\<close>

record Request =
  Path :: string
  Header :: "string \<rightharpoonup> string list"

text \<open>
  \<open>AuthHandler\<close>: from a request to success and an optional HTTP error. The
  \<open>Authenticator\<close> interface is the function from the credential to the result and the
  error; both implementations return a result that is not \<open>nil\<close>. \<open>newJWTAuthHandler\<close>
  wraps an authenticator (its second argument, the key, is not used by it). The handler
  reads the first value of the \<open>Authorization\<close> header by index, which panics on a
  slice that is present and empty.
\<close>

type_synonym AuthHandler = "Request \<Rightarrow> panic + (bool \<times> Error option)"

type_synonym 't Authenticator = "string \<Rightarrow> 't AuthResult \<times> AuthError option"

definition newJWTAuthHandler :: "'t Authenticator \<Rightarrow> AuthHandler" where
  "newJWTAuthHandler authenticator r =
     (case Header r ''Authorization'' of
        None \<Rightarrow> Inr (False, Some UnAuthorized)
      | Some authHeader \<Rightarrow>
          (case authHeader of
             [] \<Rightarrow> Inl IndexOutOfRange
           | bearerToken # _ \<Rightarrow>
               (case authenticator bearerToken of
                  (result, err) \<Rightarrow>
                    if \<not> Success result \<or> err \<noteq> None then Inr (False, None)
                    else Inr (True, None))))"


section \<open>Package config\<close>

record Endpoint =
  Name :: string
  Key :: string
  URL :: string
  Authenticate_ep :: bool
  SharedTransport :: string

text \<open>The timeouts of the configuration are counts of milliseconds.\<close>

record Proxy =
  MaxIdleConns :: int
  MaxIdleConnsPerHost :: int
  IdleConnTimeoutMs :: int
  TLSHandshakeTimeoutMs :: int
  ExpectContinueTimeoutMs :: int
  DialTimeoutMs :: int
  DialKeepAliveMs :: int
  ResponseHeaderTimeoutMs :: int

record config_CircuitBreaker =
  MaxHalfOpenRequests :: nat
  ClearFailureCountIntervalMs :: int
  HalfOpenAfterMs :: int
  FailuresToOpen :: int

definition Copy :: "Endpoint \<Rightarrow> Endpoint" where
  "Copy ep = \<lparr>Name = Name ep, Key = Key ep, URL = URL ep,
              Authenticate_ep = Authenticate_ep ep, SharedTransport = SharedTransport ep\<rparr>"

definition valid :: "Endpoint \<Rightarrow> bool \<times> string option" where
  "valid ep =
     (if Name ep = [] then (False, Some ''missing name for endpoint'')
      else if Key ep = [] then (False, Some (''missing key for endpoint: '' @ Name ep))
      else if URL ep = [] then (False, Some (''missing url for endpoint: '' @ Name ep))
      else (True, None))"

text \<open>
  \<open>validateEndpoints\<close>: the loop over the endpoints with its two sets of the names and
  keys seen so far. (\<open>CHR 39\<close> is the quote \<open>'\<close> of the messages.)
\<close>

fun validateEndpoints_loop ::
  "Endpoint list \<Rightarrow> string set \<Rightarrow> string set \<Rightarrow> bool \<times> string option" where
  "validateEndpoints_loop [] epNameSet epKeySet = (True, None)"
| "validateEndpoints_loop (ep # eps) epNameSet epKeySet =
     (if Name ep \<in> epNameSet
      then (False, Some (''endpoint name: '' @ [CHR 39] @ Name ep @ [CHR 39] @ '' is not unique''))
      else if Key ep \<in> epKeySet
      then (False, Some (''endpoint key: '' @ [CHR 39] @ Key ep @ [CHR 39] @ '' is not unique''))
      else if SharedTransport ep \<noteq> [] \<and> SharedTransport ep = Name ep
      then (False, Some (''endpoint name: '' @ [CHR 39] @ Name ep @ [CHR 39] @
                         '' cannot share a transport with itself''))
      else (case valid ep of
              (False, err) \<Rightarrow> (False, err)
            | (True, _) \<Rightarrow>
                validateEndpoints_loop eps (insert (Name ep) epNameSet) (insert (Key ep) epKeySet)))"

definition validateEndpoints :: "Endpoint list \<Rightarrow> bool \<times> string option" where
  "validateEndpoints endpoints = validateEndpoints_loop endpoints {} {}"


section \<open>Package gateway: the outbound transport\<close>

text \<open>
  The response of a backend, and the \<open>http.Transport\<close> that \<open>newTransport\<close> builds from
  the proxy configuration (its timeouts in nanoseconds, the configured milliseconds
  times \<open>time.Millisecond\<close>).
\<close>

record Response =
  StatusCode :: int
  Body :: string

record Transport =
  DialTimeout :: int
  DialKeepAlive :: int
  MaxIdleConns_tr :: int
  IdleConnTimeout :: int
  TLSHandshakeTimeout :: int
  ExpectContinueTimeout :: int

definition Millisecond :: int where
  "Millisecond = 1000000"

definition newTransport :: "Proxy \<Rightarrow> Transport" where
  "newTransport proxyConfig =
     \<lparr>DialTimeout = DialTimeoutMs proxyConfig * Millisecond,
      DialKeepAlive = DialKeepAliveMs proxyConfig * Millisecond,
      MaxIdleConns_tr = MaxIdleConns proxyConfig,
      IdleConnTimeout = IdleConnTimeoutMs proxyConfig * Millisecond,
      TLSHandshakeTimeout = TLSHandshakeTimeoutMs proxyConfig * Millisecond,
      ExpectContinueTimeout = ExpectContinueTimeoutMs proxyConfig * Millisecond\<rparr>"

text \<open>
  The circuit breaker is the library \<open>gobreaker\<close>. Its settings are the four that
  \<open>newCircuitBreaker\<close> sets (and the logging callback, which has no part here).
\<close>

datatype gobreaker_State = StateClosed | StateHalfOpen | StateOpen

record gobreaker_Settings =
  Name_cb :: string
  MaxRequests :: nat
  Interval :: int
  Timeout :: int

text \<open>
  Modelled from the spec: the breaker object and its methods (\<open>gobreaker.NewCircuitBreaker\<close>,
  \<open>CircuitBreaker.Execute\<close>) are the library's and not among the gateway's sources. The
  state is the spec's: one of Closed, Open, HalfOpen, a failure counter, the number of
  trial calls let through while HalfOpen, and the times of the last state transition and
  of the last counter reset.
\<close>

record gobreaker_CircuitBreaker =
  settings :: gobreaker_Settings
  state :: gobreaker_State
  failures :: nat
  trials :: nat
  since :: int
  cleared :: int

text \<open>Modelled from the spec: a new breaker is Closed with a failure counter of zero.\<close>

definition NewCircuitBreaker :: "gobreaker_Settings \<Rightarrow> gobreaker_CircuitBreaker" where
  "NewCircuitBreaker st =
     \<lparr>settings = st, state = StateClosed, failures = 0, trials = 0, since = 0, cleared = 0\<rparr>"

text \<open>
  Modelled from the spec: what the passing of time does to a breaker, as an event of
  its own at the time \<open>now\<close>. While Closed the failure counter is reset to zero once the
  clearing interval has gone by since the last reset; an Open breaker becomes HalfOpen
  once \<open>halfOpenAfterMs\<close> have gone by since it opened.
\<close>

definition elapse :: "int \<Rightarrow> gobreaker_CircuitBreaker \<Rightarrow> gobreaker_CircuitBreaker" where
  "elapse now cb =
     (case state cb of
        StateClosed \<Rightarrow>
          if 0 < Interval (settings cb) \<and> cleared cb + Interval (settings cb) \<le> now
          then cb\<lparr>failures := 0, cleared := now\<rparr> else cb
      | StateOpen \<Rightarrow>
          if since cb + Timeout (settings cb) \<le> now
          then cb\<lparr>state := StateHalfOpen, trials := 0, since := now\<rparr> else cb
      | StateHalfOpen \<Rightarrow> cb)"

text \<open>
  Modelled from the spec: a rejected call returns an error of the breaker's own. The spec
  gives it no text; the two texts here tell the rejection of an Open breaker from the
  one of a HalfOpen breaker.
\<close>

definition ErrOpenState :: string where
  "ErrOpenState = ''circuit breaker is open''"

definition ErrTooManyRequests :: string where
  "ErrTooManyRequests = ''too many requests''"

text \<open>
  Modelled from the spec: \<open>Execute\<close> at time \<open>now\<close>, for a call \<open>req\<close> that returns a
  result and an error, each of which may be \<open>nil\<close>; the call has failed when its error is
  not \<open>nil\<close>. \<open>failuresToOpen\<close> is the number of failures at which the breaker opens,
  an argument of its own since the settings do not carry it.
  \<^item> Closed: the call goes through; a failure increments the failure counter, any other
    outcome leaves it unchanged; when the counter reaches \<open>failuresToOpen\<close> the breaker
    opens and records the time.
  \<^item> Open: the call is rejected and \<open>req\<close> is not run.
  \<^item> HalfOpen: up to \<open>MaxRequests\<close> calls go through as trial calls, all others are
    rejected; a trial call that succeeds closes the breaker and resets the failure
    counter, one that fails opens it again and resets the Open timer.
\<close>

definition Execute ::
  "nat \<Rightarrow> int \<Rightarrow> gobreaker_CircuitBreaker \<Rightarrow> (unit \<Rightarrow> 'a option \<times> string option) \<Rightarrow>
   ('a option \<times> string option) \<times> gobreaker_CircuitBreaker" where
  "Execute failuresToOpen now cb req =
     (case state cb of
        StateOpen \<Rightarrow> ((None, Some ErrOpenState), cb)
      | StateHalfOpen \<Rightarrow>
          if MaxRequests (settings cb) \<le> trials cb then ((None, Some ErrTooManyRequests), cb)
          else (case req () of
                  (result, None) \<Rightarrow>
                    ((result, None),
                     cb\<lparr>state := StateClosed, failures := 0, trials := Suc (trials cb),
                        since := now\<rparr>)
                | (result, Some err) \<Rightarrow>
                    ((result, Some err),
                     cb\<lparr>state := StateOpen, trials := Suc (trials cb), since := now\<rparr>))
      | StateClosed \<Rightarrow>
          (case req () of
             (result, None) \<Rightarrow> ((result, None), cb)
           | (result, Some err) \<Rightarrow>
               ((result, Some err),
                if failuresToOpen \<le> Suc (failures cb)
                then cb\<lparr>state := StateOpen, failures := Suc (failures cb), since := now\<rparr>
                else cb\<lparr>failures := Suc (failures cb)\<rparr>)))"

text \<open>
  \<open>newCircuitBreaker\<close>: no breaker without a breaker configuration. The configured
  \<open>FailuresToOpen\<close> is not among the settings it hands to the library.
\<close>

definition newCircuitBreaker ::
  "string \<Rightarrow> config_CircuitBreaker option \<Rightarrow> gobreaker_CircuitBreaker option" where
  "newCircuitBreaker name cbConfig =
     (case cbConfig of
        None \<Rightarrow> None
      | Some c \<Rightarrow>
          Some (NewCircuitBreaker
            \<lparr>Name_cb = ''crctbrkr-'' @ name,
             MaxRequests = MaxHalfOpenRequests c,
             Interval = ClearFailureCountIntervalMs c * Millisecond,
             Timeout = HalfOpenAfterMs c * Millisecond\<rparr>))"

text \<open>\<open>CbTransport\<close> ties a transport to its breaker, which may be \<open>nil\<close>.\<close>

record CbTransport =
  Transport :: Transport
  CircuitBreaker :: "gobreaker_CircuitBreaker option"

text \<open>
  Transport handles are objects that endpoints share, so they live in a store: a
  handle's address is its index in the list of the handles allocated so far, and
  \<open>newCbTransport\<close> allocates the next one.
\<close>

type_synonym addr = nat

type_synonym Heap = "CbTransport list"

definition newCbTransport ::
  "string \<Rightarrow> Proxy \<Rightarrow> config_CircuitBreaker option \<Rightarrow> Heap \<Rightarrow> addr \<times> Heap" where
  "newCbTransport name proxyConfig cbConfig heap =
     (length heap,
      heap @ [\<lparr>Transport = newTransport proxyConfig,
               CircuitBreaker = newCircuitBreaker name cbConfig\<rparr>])"

text \<open>
  \<open>RoundTrip\<close> of a \<open>CbTransport\<close>. The inner transport's own round trip is the wire: the
  parameter \<open>wire\<close>, from the pooled transport and the request to the response and the
  error, each of which may be \<open>nil\<close>. The breaker's state changes, so the transport is
  returned with the result. \<open>failuresToOpen\<close> and \<open>now\<close> are passed on to the breaker.
  The last test, whether the response is \<open>nil\<close>, returns the same pair either way.
\<close>

definition RoundTrip ::
  "nat \<Rightarrow> int \<Rightarrow> (Transport \<Rightarrow> Request \<Rightarrow> Response option \<times> string option) \<Rightarrow>
   CbTransport \<Rightarrow> Request \<Rightarrow> (Response option \<times> string option) \<times> CbTransport" where
  "RoundTrip failuresToOpen now wire transport request =
     (case
        (case CircuitBreaker transport of
           None \<Rightarrow> (wire (Transport transport) request, transport)
         | Some cb \<Rightarrow>
             (case Execute failuresToOpen now cb
                     (\<lambda>_. case wire (Transport transport) request of
                             (r, e) \<Rightarrow>
                               (case r of
                                  None \<Rightarrow> (r, e)
                                | Some resp \<Rightarrow>
                                    if 500 \<le> StatusCode resp \<and> StatusCode resp < 600
                                    then (None, Some ''500 error for service endpoint'')
                                    else (r, e))) of
                (out, cb') \<Rightarrow> (out, transport\<lparr>CircuitBreaker := Some cb'\<rparr>)))
      of
        ((None, err), transport') \<Rightarrow> ((None, err), transport')
      | ((Some resp, err), transport') \<Rightarrow> ((Some resp, err), transport'))"


section \<open>Package gateway: stage handlers\<close>

text \<open>
  A response writer, by the contract of \<open>http.ResponseWriter\<close>: the status is written
  once, and the first \<open>Write\<close> without one writes 200 first.
\<close>

record ResponseWriter =
  status :: "int option"
  written :: string

definition WriteHeader :: "int \<Rightarrow> ResponseWriter \<Rightarrow> ResponseWriter" where
  "WriteHeader code w = (if status w = None then w\<lparr>status := Some code\<rparr> else w)"

definition Write :: "string \<Rightarrow> ResponseWriter \<Rightarrow> ResponseWriter" where
  "Write b w = (let w' = WriteHeader 200 w in w'\<lparr>written := written w' @ b\<rparr>)"

text \<open>
  What a stage acts on: the response writer, and everything beyond the gateway
  (backends, connections, breakers), of a type \<open>'o\<close> that only the reverse proxy touches.
\<close>

record 'o World =
  rw :: ResponseWriter
  outside :: 'o

text \<open>
  The reverse proxy of a route is the library's \<open>httputil.ReverseProxy\<close>, made for the
  parsed URL of the endpoint and given the transport handle of the route. Its
  \<open>ServeHTTP\<close> is the parameter \<open>serve\<close> of the functions below, a function of the
  world that is taken to return.
\<close>

record ReverseProxy =
  rp_Target :: string
  rp_Transport :: "addr option"

text \<open>
  The two closures that \<open>ExecHandler\<close> fields hold: the one that proxies, which
  captures the reverse proxy of the route, and the one that authenticates, which
  captures the dispatcher and reads its \<open>authHandler\<close> at each request. A
  \<open>StageHandler\<close> is one of them with the pointer to the next stage.
\<close>

datatype ExecHandler = ProxyExec ReverseProxy | AuthExec

datatype StageHandler = Stage (ExecHandler: ExecHandler) (Next: "StageHandler option")

record Route =
  Endpoint :: Endpoint
  StageHandler :: StageHandler

record Dispatcher =
  routes :: "(string \<rightharpoonup> Route) option"
  authHandler :: "AuthHandler option"
  proxyConfig :: Proxy
  cbConfig :: "config_CircuitBreaker option"
  transports :: "string \<rightharpoonup> addr"

text \<open>
  Running a closure on a request: the new world and whether the chain goes on, or a
  panic.
\<close>

fun call ::
  "(ReverseProxy \<Rightarrow> Request \<Rightarrow> 'o World \<Rightarrow> 'o World) \<Rightarrow> Dispatcher \<Rightarrow> ExecHandler \<Rightarrow>
   Request \<Rightarrow> 'o World \<Rightarrow> panic + (bool \<times> 'o World)" where
  "call serve d (ProxyExec routeProxy) r w = Inr (False, serve routeProxy r w)"
| "call serve d AuthExec r w =
     (case authHandler d of
        None \<Rightarrow> Inl NilDereference
      | Some h \<Rightarrow>
          (case h r of
             Inl p \<Rightarrow> Inl p
           | Inr (ok, httpErr) \<Rightarrow>
               if \<not> ok then
                 (case httpErr of
                    Some e \<Rightarrow>
                      Inr (False,
                        w\<lparr>rw := (if Message e \<noteq> [] then Write (Message e) else id)
                                  ((if Code e \<noteq> 0 then WriteHeader (Code e) else id) (rw w))\<rparr>)
                  | None \<Rightarrow>
                      Inr (False, w\<lparr>rw := Write ''forbidden'' (WriteHeader 403 (rw w))\<rparr>))
               else Inr (True, w)))"

text \<open>\<open>StageHandler.Execute\<close>: this stage, and the next one if this one returned true.\<close>

fun StageHandler_Execute ::
  "(ReverseProxy \<Rightarrow> Request \<Rightarrow> 'o World \<Rightarrow> 'o World) \<Rightarrow> Dispatcher \<Rightarrow> StageHandler \<Rightarrow>
   Request \<Rightarrow> 'o World \<Rightarrow> panic + 'o World" where
  "StageHandler_Execute serve d (Stage h nxt) r w =
     (case call serve d h r w of
        Inl p \<Rightarrow> Inl p
      | Inr (ok, w') \<Rightarrow>
          if ok then
            (case nxt of
               None \<Rightarrow> Inr w'
             | Some n \<Rightarrow> StageHandler_Execute serve d n r w')
          else Inr w')"


section \<open>Package gateway: compiling the routes\<close>

text \<open>
  \<open>url.Parse\<close> is the library's: the parameter \<open>url_Parse\<close>, from the text to the
  parsed URL or to the text of its error (\<open>Inl\<close>). Compiling mutates the dispatcher's
  table of transports and allocates handles, so each function takes the dispatcher with
  the store and returns them with its result, also when the result is an error.
\<close>

definition newProxyStageHandler ::
  "(string \<Rightarrow> string + string) \<Rightarrow> Endpoint \<Rightarrow> Dispatcher \<times> Heap \<Rightarrow>
   (string + StageHandler) \<times> (Dispatcher \<times> Heap)" where
  "newProxyStageHandler url_Parse ep s =
     (case s of
        (d, heap) \<Rightarrow>
          (case url_Parse (URL ep) of
             Inl err \<Rightarrow>
               (Inl (''failed to parse url: '' @ URL ep @ '', for endpoint: '' @ Name ep @
                     '', '' @ err),
                (d, heap))
           | Inr proxyUrl \<Rightarrow>
               (let transName = (if SharedTransport ep \<noteq> [] then SharedTransport ep
                                 else Name ep);
                    s' = (case transports d transName of
                            Some v \<Rightarrow> (d\<lparr>transports := (transports d)(transName \<mapsto> v)\<rparr>, heap)
                          | None \<Rightarrow>
                              (case newCbTransport (Name ep) (proxyConfig d) (cbConfig d) heap of
                                 (a, heap') \<Rightarrow>
                                   (d\<lparr>transports := (transports d)(transName \<mapsto> a)\<rparr>, heap')));
                    routeProxy = \<lparr>rp_Target = proxyUrl,
                                  rp_Transport = transports (fst s') transName\<rparr>
                in (Inr (Stage (ProxyExec routeProxy) None), s'))))"

definition newAuthenticatingProxyStageHandler ::
  "(string \<Rightarrow> string + string) \<Rightarrow> Endpoint \<Rightarrow> Dispatcher \<times> Heap \<Rightarrow>
   (string + StageHandler) \<times> (Dispatcher \<times> Heap)" where
  "newAuthenticatingProxyStageHandler url_Parse ep s =
     (if authHandler (fst s) = None
      then (Inl ''authenticated service configured but no auth handler set'', s)
      else (case newProxyStageHandler url_Parse ep s of
              (Inl err, s') \<Rightarrow> (Inl err, s')
            | (Inr proxySh, s') \<Rightarrow> (Inr (Stage AuthExec (Some proxySh)), s')))"

text \<open>The body of the loop of \<open>configureRoutes\<close> up to its error check.\<close>

definition compile ::
  "(string \<Rightarrow> string + string) \<Rightarrow> Endpoint \<Rightarrow> Dispatcher \<times> Heap \<Rightarrow>
   (string + StageHandler) \<times> (Dispatcher \<times> Heap)" where
  "compile url_Parse ep s =
     (if Authenticate_ep ep then newAuthenticatingProxyStageHandler url_Parse ep s
      else newProxyStageHandler url_Parse ep s)"

fun configureRoutes_loop ::
  "(string \<Rightarrow> string + string) \<Rightarrow> Endpoint list \<Rightarrow> (string \<rightharpoonup> Route) \<Rightarrow> Dispatcher \<times> Heap \<Rightarrow>
   (string + (string \<rightharpoonup> Route)) \<times> (Dispatcher \<times> Heap)" where
  "configureRoutes_loop url_Parse [] rts s = (Inr rts, s)"
| "configureRoutes_loop url_Parse (ep # eps) rts s =
     (case compile url_Parse ep s of
        (Inl err, s') \<Rightarrow> (Inl err, s')
      | (Inr sh, s') \<Rightarrow>
          configureRoutes_loop url_Parse eps
            (rts(Name ep \<mapsto> \<lparr>Endpoint = Copy ep, StageHandler = sh\<rparr>)) s')"

text \<open>
  \<open>configureRoutes\<close>: the route table is assigned to the dispatcher only after the loop
  has compiled every endpoint; an error returns before that.
\<close>

definition configureRoutes ::
  "(string \<Rightarrow> string + string) \<Rightarrow> Endpoint list \<Rightarrow> Dispatcher \<times> Heap \<Rightarrow>
   string option \<times> (Dispatcher \<times> Heap)" where
  "configureRoutes url_Parse eps s =
     (case configureRoutes_loop url_Parse eps Map.empty s of
        (Inl err, s') \<Rightarrow> (Some err, s')
      | (Inr rts, (d, heap)) \<Rightarrow> (None, (d\<lparr>routes := Some rts\<rparr>, heap)))"

text \<open>The builder. A new dispatcher has every field at its zero value.\<close>

record DispatcherBuilder =
  endpoints :: "Endpoint list"
  dispatcher :: Dispatcher

definition NewDispatchBuilder :: DispatcherBuilder where
  "NewDispatchBuilder =
     \<lparr>endpoints = [],
      dispatcher =
        \<lparr>routes = None, authHandler = None,
         proxyConfig =
           \<lparr>MaxIdleConns = 0, MaxIdleConnsPerHost = 0, IdleConnTimeoutMs = 0,
            TLSHandshakeTimeoutMs = 0, ExpectContinueTimeoutMs = 0, DialTimeoutMs = 0,
            DialKeepAliveMs = 0, ResponseHeaderTimeoutMs = 0\<rparr>,
         cbConfig = None, transports = Map.empty\<rparr>\<rparr>"

definition ProxyConfig :: "Proxy \<Rightarrow> DispatcherBuilder \<Rightarrow> DispatcherBuilder" where
  "ProxyConfig c b = b\<lparr>dispatcher := (dispatcher b)\<lparr>proxyConfig := c\<rparr>\<rparr>"

definition CircuitBreakerConfig ::
  "config_CircuitBreaker option \<Rightarrow> DispatcherBuilder \<Rightarrow> DispatcherBuilder" where
  "CircuitBreakerConfig c b = b\<lparr>dispatcher := (dispatcher b)\<lparr>cbConfig := c\<rparr>\<rparr>"

definition AuthHandler :: "AuthHandler option \<Rightarrow> DispatcherBuilder \<Rightarrow> DispatcherBuilder" where
  "AuthHandler h b = b\<lparr>dispatcher := (dispatcher b)\<lparr>authHandler := h\<rparr>\<rparr>"

definition Endpoints :: "Endpoint list \<Rightarrow> DispatcherBuilder \<Rightarrow> DispatcherBuilder" where
  "Endpoints e b = b\<lparr>endpoints := e\<rparr>"

text \<open>
  \<open>Build\<close>: a fresh table of transports, then \<open>configureRoutes\<close>, whose two results are
  both dropped; the dispatcher is returned as the call left it.
\<close>

definition Build ::
  "(string \<Rightarrow> string + string) \<Rightarrow> DispatcherBuilder \<Rightarrow> Heap \<Rightarrow> Dispatcher \<times> Heap" where
  "Build url_Parse b heap =
     snd (configureRoutes url_Parse (endpoints b)
            ((dispatcher b)\<lparr>transports := Map.empty\<rparr>, heap))"


section \<open>Package gateway: dispatching a request\<close>

definition sendError :: "Error \<Rightarrow> ResponseWriter \<Rightarrow> ResponseWriter" where
  "sendError e w = Write (Message e @ '': '' @ itoa (Code e)) (WriteHeader (Code e) w)"

text \<open>
  Reading the route table: a table that was never assigned is a \<open>nil\<close> map, in which
  no key is found.
\<close>

definition lookup :: "Dispatcher \<Rightarrow> string \<Rightarrow> Route option" where
  "lookup d k = (case routes d of None \<Rightarrow> None | Some m \<Rightarrow> m k)"

text \<open>
  The loop of \<open>Dispatch\<close> over the stages of the matched route: \<open>sh\<close> is the stage to
  run, \<open>nil\<close> ends the loop, a stage that returns false breaks it, and after a stage that
  returns true the loop goes on with \<open>matchRoute.StageHandler.Next\<close>. The loop need not
  end, so not returning is the value \<open>None\<close>.
\<close>

partial_function (option) Dispatch_loop ::
  "(ReverseProxy \<Rightarrow> Request \<Rightarrow> 'o World \<Rightarrow> 'o World) \<Rightarrow> Dispatcher \<Rightarrow> Route \<Rightarrow>
   StageHandler option \<Rightarrow> Request \<Rightarrow> 'o World \<Rightarrow> (panic + 'o World) option" where
  "Dispatch_loop serve d matchRoute sh r w =
     (case sh of
        None \<Rightarrow> Some (Inr w)
      | Some s \<Rightarrow>
          (case call serve d (ExecHandler s) r w of
             Inl p \<Rightarrow> Some (Inl p)
           | Inr (ok, w') \<Rightarrow>
               if \<not> ok then Some (Inr w')
               else Dispatch_loop serve d matchRoute (Next (StageHandler matchRoute)) r w'))"

text \<open>
  \<open>Dispatch\<close>: the path is split on \<open>/\<close> and the route is looked up under the element at
  index 1, which panics when the split has one element only.
\<close>

definition Dispatch ::
  "(ReverseProxy \<Rightarrow> Request \<Rightarrow> 'o World \<Rightarrow> 'o World) \<Rightarrow> Dispatcher \<Rightarrow> Request \<Rightarrow> 'o World \<Rightarrow>
   (panic + 'o World) option" where
  "Dispatch serve d r w =
     (let pathSgmts = Split (Path r) CHR ''/'' in
      if 1 \<le> length pathSgmts then
        (if length pathSgmts \<le> 1 then Some (Inl IndexOutOfRange)
         else (case lookup d (pathSgmts ! 1) of
                 Some matchRoute \<Rightarrow>
                   Dispatch_loop serve d matchRoute (Some (StageHandler matchRoute)) r w
               | None \<Rightarrow> Some (Inr (w\<lparr>rw := sendError NotFound (rw w)\<rparr>))))
      else Some (Inr (w\<lparr>rw := sendError NotFound (rw w)\<rparr>)))"


section \<open>The spec's vocabulary\<close>

text \<open>
  The stages of a chain from front to back, and the walk of a chain in the words of the
  spec: front to back, a stage that returns false halts the chain, a stage that returns
  true passes control to the next stage, and returning from the last stage ends the
  chain whatever it returned. A panic ends the walk as it ends the request.
\<close>

fun stages_of :: "StageHandler \<Rightarrow> ExecHandler list" where
  "stages_of (Stage h nxt) = h # (case nxt of None \<Rightarrow> [] | Some n \<Rightarrow> stages_of n)"

fun chain_walk ::
  "(ReverseProxy \<Rightarrow> Request \<Rightarrow> 'o World \<Rightarrow> 'o World) \<Rightarrow> Dispatcher \<Rightarrow> ExecHandler list \<Rightarrow>
   Request \<Rightarrow> 'o World \<Rightarrow> panic + 'o World" where
  "chain_walk serve d [] r w = Inr w"
| "chain_walk serve d (h # rest) r w =
     (case call serve d h r w of
        Inl p \<Rightarrow> Inl p
      | Inr (ok, w') \<Rightarrow> if ok then chain_walk serve d rest r w' else Inr w')"

text \<open>A request's world at its start: nothing written yet.\<close>

definition fresh :: "'o \<Rightarrow> 'o World" where
  "fresh out = \<lparr>rw = \<lparr>status = None, written = []\<rparr>, outside = out\<rparr>"

text \<open>
  The response of a failed authentication on a writer with nothing written yet: 403
  with the body \<open>forbidden\<close> when the auth layer carried no HTTP error, otherwise the
  carried message under the carried code. (The code 0 writes no status, so a message is
  then sent under 200 and nothing at all is written for an empty message.)
\<close>

definition denial :: "Error option \<Rightarrow> ResponseWriter" where
  "denial httpErr =
     (case httpErr of
        None \<Rightarrow> \<lparr>status = Some 403, written = ''forbidden''\<rparr>
      | Some e \<Rightarrow>
          \<lparr>status = (if Code e \<noteq> 0 then Some (Code e)
                     else if Message e \<noteq> [] then Some 200 else None),
           written = Message e\<rparr>)"

text \<open>
  The transport name of an endpoint: its declared \<open>sharedTransport\<close>, or else its own
  name. The transport handle of a chain is the one its last stage, the proxy, was given.
\<close>

definition transport_name :: "Endpoint \<Rightarrow> string" where
  "transport_name ep = (if SharedTransport ep \<noteq> [] then SharedTransport ep else Name ep)"

fun handle_of :: "StageHandler \<Rightarrow> addr option" where
  "handle_of (Stage h nxt) =
     (case nxt of
        Some n \<Rightarrow> handle_of n
      | None \<Rightarrow> (case h of ProxyExec routeProxy \<Rightarrow> rp_Transport routeProxy | AuthExec \<Rightarrow> None))"

text \<open>
  The endpoints that a run of the loop of \<open>configureRoutes\<close> compiles, each with the
  chain it got, in the order of the run; the run stops at the first endpoint that does
  not compile.
\<close>

fun compiled ::
  "(string \<Rightarrow> string + string) \<Rightarrow> Endpoint list \<Rightarrow> Dispatcher \<times> Heap \<Rightarrow>
   (Endpoint \<times> StageHandler) list" where
  "compiled url_Parse [] s = []"
| "compiled url_Parse (ep # eps) s =
     (case compile url_Parse ep s of
        (Inl err, s') \<Rightarrow> []
      | (Inr sh, s') \<Rightarrow> (ep, sh) # compiled url_Parse eps s')"

text \<open>
  A response is a server error when its status is in 500..599, and a breaker rejects a
  call when it is Open, or HalfOpen with its trial calls used up.
\<close>

definition server_error :: "Response option \<Rightarrow> bool" where
  "server_error r =
     (case r of None \<Rightarrow> False | Some resp \<Rightarrow> 500 \<le> StatusCode resp \<and> StatusCode resp < 600)"

definition rejects :: "gobreaker_CircuitBreaker \<Rightarrow> bool" where
  "rejects cb =
     (state cb = StateOpen \<or> (state cb = StateHalfOpen \<and> MaxRequests (settings cb) \<le> trials cb))"


section \<open>Scenarios\<close>

text \<open>The two endpoints of the spec's end-to-end scenario.\<close>

definition svc1 :: Endpoint where
  "svc1 = \<lparr>Name = ''svc1'', Key = ''service1'', URL = ''http://localhost:8181'',
           Authenticate_ep = False, SharedTransport = []\<rparr>"

definition svc2 :: Endpoint where
  "svc2 = \<lparr>Name = ''svc2'', Key = ''service2'', URL = ''http://localhost:8282'',
           Authenticate_ep = True, SharedTransport = []\<rparr>"

text \<open>
  Stand-ins for the libraries, for running the scenario: a reverse proxy that answers
  200 with the body \<open>ok\<close> and records the target it contacted, so that the world beyond
  the gateway is the list of the backends contacted so far; a JWT library that accepts
  the token \<open>good\<close> only; and the gateway built for the two endpoints with a
  handler over that library.
\<close>

definition stub_serve :: "ReverseProxy \<Rightarrow> Request \<Rightarrow> string list World \<Rightarrow> string list World" where
  "stub_serve routeProxy r w =
     w\<lparr>rw := Write ''ok'' (WriteHeader 200 (rw w)),
       outside := outside w @ [rp_Target routeProxy]\<rparr>"

definition stub_jwt :: "nat \<Rightarrow> string \<Rightarrow> string option \<times> string option" where
  "stub_jwt k t = (if t = ''good'' then (Some t, None) else (None, Some ''token is malformed''))"

definition stub_authHandler :: AuthHandler where
  "stub_authHandler =
     newJWTAuthHandler (\<lambda>c. fst (Authenticate stub_jwt (NewJWTAuthenticator 0) c []))"

definition scenario :: "Dispatcher \<times> Heap" where
  "scenario =
     Build Inr (AuthHandler (Some stub_authHandler) (Endpoints [svc1, svc2] NewDispatchBuilder)) []"

text \<open>
  The breaker configuration of the spec's example (three failures open the breaker),
  the transport handle that \<open>newCbTransport\<close> allocates first under it, a wire that
  answers every request with a given status, and a request.
\<close>

definition stub_cbConfig :: config_CircuitBreaker where
  "stub_cbConfig =
     \<lparr>MaxHalfOpenRequests = 1, ClearFailureCountIntervalMs = 10000, HalfOpenAfterMs = 5000,
      FailuresToOpen = 3\<rparr>"

definition stub_transport :: CbTransport where
  "stub_transport =
     hd (snd (newCbTransport ''svc1'' (proxyConfig (dispatcher NewDispatchBuilder))
                (Some stub_cbConfig) []))"

definition stub_wire :: "int \<Rightarrow> Transport \<Rightarrow> Request \<Rightarrow> Response option \<times> string option" where
  "stub_wire code t r = (Some \<lparr>StatusCode = code, Body = ''from the backend''\<rparr>, None)"

definition stub_request :: Request where
  "stub_request = \<lparr>Path = ''/svc1/x'', Header = Map.empty\<rparr>"

text \<open>
  The two endpoints of the repository's own configuration file: \<open>service1\<close> declares
  \<open>service2\<close> as its shared transport.
\<close>

definition service1 :: Endpoint where
  "service1 = \<lparr>Name = ''service1'', Key = ''service1'', URL = ''http://localhost:8181'',
               Authenticate_ep = False, SharedTransport = ''service2''\<rparr>"

definition service2 :: Endpoint where
  "service2 = \<lparr>Name = ''service2'', Key = ''service2'', URL = ''http://localhost:8282'',
               Authenticate_ep = False, SharedTransport = []\<rparr>"

text \<open>
  Three endpoints in a chain of shared transports: \<open>chain_a\<close> declares \<open>chain_b\<close>, which
  itself declares \<open>chain_c\<close>.
\<close>

definition chain_a :: Endpoint where
  "chain_a = \<lparr>Name = ''a'', Key = ''a'', URL = ''http://localhost:8001'',
              Authenticate_ep = False, SharedTransport = ''b''\<rparr>"

definition chain_b :: Endpoint where
  "chain_b = \<lparr>Name = ''b'', Key = ''b'', URL = ''http://localhost:8002'',
              Authenticate_ep = False, SharedTransport = ''c''\<rparr>"

definition chain_c :: Endpoint where
  "chain_c = \<lparr>Name = ''c'', Key = ''c'', URL = ''http://localhost:8003'',
              Authenticate_ep = False, SharedTransport = []\<rparr>"

section \<open>The verifier: cutting the credential\<close>

lemma SplitN_2_no_sep:
  "sep \<notin> set s \<Longrightarrow> SplitN s sep (Suc (Suc 0)) = [s]"
  by (induction s) auto

lemma SplitN_2_at_first_sep:
  "sep \<notin> set a \<Longrightarrow> SplitN (a @ sep # b) sep (Suc (Suc 0)) = [a, b]"
  by (induction a) auto

lemma splitToken_scheme:
  "CHR '' '' \<notin> set scheme \<Longrightarrow>
   splitToken (scheme @ CHR '' '' # rest) =
     (if ToLower scheme = ''bearer'' then Inr rest else Inl ''not a bearer token'')"
  by (simp add: splitToken_def numeral_2_eq_2 SplitN_2_at_first_sep)

lemma splitToken_bare:
  "CHR '' '' \<notin> set token \<Longrightarrow> splitToken token = Inr token"
  by (simp add: splitToken_def numeral_2_eq_2 SplitN_2_no_sep)

text \<open>
  C7. A credential of two space-separated parts, \<open>scheme\<close> up to the first space and
  \<open>rest\<close> after it, whose scheme does not lower to \<open>bearer\<close>: \<open>Authenticate\<close> returns
  \<open>Success = false\<close> with no artifact and the \<open>AuthError\<close> "not a bearer token", and
  the list of tokens handed to \<open>jwt.Parse\<close> is as it was: no verification was tried,
  whatever the library would have answered.
\<close>

theorem Authenticate_rejects_other_scheme:
  assumes "CHR '' '' \<notin> set scheme"
    and "ToLower scheme \<noteq> ''bearer''"
  shows "Authenticate jwt_Parse authenticator (scheme @ CHR '' '' # rest) parsed =
           ((\<lparr>Success = False, Artifact = None\<rparr>, Some (AuthError ''not a bearer token'')),
            parsed)"
  using assms by (simp add: Authenticate_def splitToken_scheme)

theorem Authenticate_rejects_other_scheme_witness:
  "Authenticate (\<lambda>k t. (Some t, None)) (NewJWTAuthenticator (0::nat)) ''Basic xyz'' [] =
     ((\<lparr>Success = False, Artifact = None\<rparr>, Some (AuthError ''not a bearer token'')), [])"
proof -
  have sp: "CHR '' '' \<notin> set ''Basic''"
    by simp
  have lo: "ToLower ''Basic'' \<noteq> ''bearer''"
    by (simp add: ToLower_def lower_char_def)
  show ?thesis
    using Authenticate_rejects_other_scheme [OF sp lo, of "\<lambda>k t. (Some t, None)"
        "NewJWTAuthenticator (0::nat)" "''xyz''" "[]"]
    by simp
qed

text \<open>
  C10. A credential with no space in it: \<open>splitToken\<close> returns it whole and without an
  error, and \<open>Authenticate\<close> hands exactly that string to \<open>jwt.Parse\<close>. The outcome is the
  one of the same token behind the prefix \<open>Bearer \<close>, so the bare token is not turned
  away as a non-bearer credential, and where the library accepts it the result is
  \<open>Success = true\<close> with the parsed token as artifact and no error.
\<close>

theorem Authenticate_bare_token:
  assumes "CHR '' '' \<notin> set creds"
  shows "splitToken creds = Inr creds
       \<and> snd (Authenticate jwt_Parse authenticator creds parsed) = parsed @ [creds]
       \<and> Authenticate jwt_Parse authenticator creds parsed =
           Authenticate jwt_Parse authenticator (''Bearer '' @ creds) parsed
       \<and> (\<forall>t. jwt_Parse (key authenticator) creds = (Some t, None) \<longrightarrow>
            fst (Authenticate jwt_Parse authenticator creds parsed) =
              (\<lparr>Success = True, Artifact = Some t\<rparr>, None))"
proof -
  have bare: "splitToken creds = Inr creds"
    using assms by (rule splitToken_bare)
  have "CHR '' '' \<notin> set ''Bearer''"
    by simp
  then have "splitToken (''Bearer'' @ CHR '' '' # creds) =
      (if ToLower ''Bearer'' = ''bearer'' then Inr creds else Inl ''not a bearer token'')"
    by (rule splitToken_scheme)
  then have prefixed: "splitToken (''Bearer '' @ creds) = Inr creds"
    by (simp add: ToLower_def lower_char_def)
  show ?thesis
    unfolding Authenticate_def bare prefixed
    by (auto split: prod.splits option.splits)
qed

theorem Authenticate_bare_token_witness:
  "splitToken ''abc.def.ghi'' = Inr ''abc.def.ghi''
   \<and> Authenticate (\<lambda>k t. (Some t, None)) (NewJWTAuthenticator (0::nat)) ''abc.def.ghi'' [] =
       ((\<lparr>Success = True, Artifact = Some ''abc.def.ghi''\<rparr>, None), [''abc.def.ghi''])"
proof -
  have sp: "CHR '' '' \<notin> set ''abc.def.ghi''"
    by simp
  show ?thesis
    using Authenticate_bare_token [OF sp, of "\<lambda>k t. (Some t, None)"
        "NewJWTAuthenticator (0::nat)" "[]"]
    by (simp add: Authenticate_def NewJWTAuthenticator_def)
qed


section \<open>Dispatch: the lookup\<close>

lemma Split_not_Nil: "Split s sep \<noteq> []"
  by (induction s) (auto split: list.splits)

lemma length_Split: "length (Split s sep) = Suc (length (filter (\<lambda>c. c = sep) s))"
  by (induction s) (auto split: list.splits simp: Split_not_Nil)

lemma Split_short: "length (Split s sep) \<le> Suc 0 \<longleftrightarrow> sep \<notin> set s"
  by (auto simp add: length_Split filter_empty_conv)

text \<open>A path with no \<open>/\<close> in it splits into one element, and index 1 is out of range.\<close>

lemma Dispatch_no_slash:
  "CHR ''/'' \<notin> set (Path r) \<Longrightarrow> Dispatch serve d r w = Some (Inl IndexOutOfRange)"
proof -
  assume "CHR ''/'' \<notin> set (Path r)"
  then have "length (Split (Path r) CHR ''/'') = 1"
    by (auto simp add: length_Split filter_empty_conv)
  then show ?thesis
    by (simp add: Dispatch_def Let_def)
qed

lemma lookup_unassigned: "routes d = None \<Longrightarrow> lookup d k = None"
  by (simp add: lookup_def)

text \<open>A path with a \<open>/\<close> whose element at index 1 has no route is answered 404.\<close>

lemma Dispatch_not_found:
  assumes "CHR ''/'' \<in> set (Path r)"
    and "lookup d (Split (Path r) CHR ''/'' ! 1) = None"
  shows "Dispatch serve d r w = Some (Inr (w\<lparr>rw := sendError NotFound (rw w)\<rparr>))"
proof -
  have "\<not> length (Split (Path r) CHR ''/'') \<le> 1"
    using assms(1) by (simp add: Split_short)
  then show ?thesis
    using assms(2) by (simp add: Dispatch_def Let_def)
qed

text \<open>A path with a \<open>/\<close> whose element at index 1 has a route runs the loop on its chain.\<close>

lemma Dispatch_found:
  assumes "CHR ''/'' \<in> set (Path r)"
    and "lookup d (Split (Path r) CHR ''/'' ! 1) = Some m"
  shows "Dispatch serve d r w = Dispatch_loop serve d m (Some (StageHandler m)) r w"
proof -
  have "\<not> length (Split (Path r) CHR ''/'') \<le> 1"
    using assms(1) by (simp add: Split_short)
  then show ?thesis
    using assms(2) by (simp add: Dispatch_def Let_def)
qed

lemma sendError_NotFound_fresh:
  "sendError NotFound \<lparr>status = None, written = []\<rparr> =
     \<lparr>status = Some 404, written = ''not found: 404''\<rparr>"
  by (simp add: sendError_def NotFound_def WriteHeader_def Write_def Let_def itoa_def
      digits.simps)

text \<open>
  C5. The claim is that \<open>Dispatch\<close> answers every path that matches no route with 404,
  the empty path included, and never panics. On the empty path (and on every path
  without a \<open>/\<close>) the code panics instead: the split has one element, the guard
  \<open>len(pathSgmts) >= 1\<close> lets it through, and \<open>pathSgmts[1]\<close> is out of range, whatever
  the dispatcher's routes are.
\<close>

theorem Dispatch_empty_path_panics:
  "Dispatch serve d \<lparr>Path = [], Header = h\<rparr> w = Some (Inl IndexOutOfRange)"
  by (simp add: Dispatch_no_slash)


section \<open>Compiling the routes: what a failure leaves behind\<close>

lemma compile_shape:
  assumes "compile url_Parse ep s = (Inr sh, s')"
  shows "\<exists>rp. sh = (if Authenticate_ep ep
                     then Stage AuthExec (Some (Stage (ProxyExec rp) None))
                     else Stage (ProxyExec rp) None)"
  using assms
  by (auto simp add: compile_def newAuthenticatingProxyStageHandler_def
      newProxyStageHandler_def Let_def
      split: if_splits sum.splits prod.splits option.splits)

lemma compile_keeps_routes:
  "compile url_Parse ep s = (res, s') \<Longrightarrow> routes (fst s') = routes (fst s)"
  by (cases s)
     (auto simp add: compile_def newAuthenticatingProxyStageHandler_def
      newProxyStageHandler_def Let_def
      split: if_splits sum.splits prod.splits option.splits)

lemma loop_keeps_routes:
  "configureRoutes_loop url_Parse eps rts s = (res, s') \<Longrightarrow> routes (fst s') = routes (fst s)"
proof (induction eps arbitrary: rts s)
  case Nil
  then show ?case by simp
next
  case (Cons ep eps)
  obtain c s1 where c: "compile url_Parse ep s = (c, s1)"
    by (cases "compile url_Parse ep s")
  show ?case
  proof (cases c)
    case (Inl err)
    with Cons.prems c show ?thesis
      using compile_keeps_routes [OF c] by simp
  next
    case (Inr sh)
    with Cons.prems c have "routes (fst s') = routes (fst s1)"
      using Cons.IH by simp
    then show ?thesis
      using compile_keeps_routes [OF c] by simp
  qed
qed

lemma configureRoutes_failed:
  assumes "configureRoutes url_Parse eps s = (Some err, s')"
  shows "routes (fst s') = routes (fst s)"
proof -
  obtain res s1 where l: "configureRoutes_loop url_Parse eps Map.empty s = (res, s1)"
    by (cases "configureRoutes_loop url_Parse eps Map.empty s")
  with assms have "s' = s1"
    by (auto simp add: configureRoutes_def split: sum.splits prod.splits)
  then show ?thesis
    using loop_keeps_routes [OF l] by simp
qed

text \<open>
  Whenever \<open>configureRoutes\<close> fails, \<open>Build\<close> still returns the dispatcher, with the route
  table it had before (never assigned, for a new builder), and that dispatcher answers
  every path with a \<open>/\<close> in it with 404.
\<close>

lemma failed_Build_answers_404:
  assumes "configureRoutes url_Parse (endpoints b)
             ((dispatcher b)\<lparr>transports := Map.empty\<rparr>, heap) = (Some err, s')"
    and "routes (dispatcher b) = None"
    and "CHR ''/'' \<in> set (Path r)"
  shows "Dispatch serve (fst (Build url_Parse b heap)) r w =
           Some (Inr (w\<lparr>rw := sendError NotFound (rw w)\<rparr>))"
proof -
  have "routes (fst (Build url_Parse b heap)) = None"
    using configureRoutes_failed [OF assms(1)] assms(1,2) by (simp add: Build_def)
  then show ?thesis
    using assms(3) by (simp add: Dispatch_not_found lookup_unassigned)
qed

text \<open>
  C9. The claim is that a dispatcher built from endpoints that do not compile answers
  404 to every request. With a URL parser that fails, \<open>Build\<close> does return a dispatcher
  and its route table is never assigned; but on the request with the empty path that
  dispatcher panics, it does not answer 404.
\<close>

theorem failed_Build_panics_without_slash:
  "routes (fst (Build (\<lambda>u. Inl e) (Endpoints [ep] NewDispatchBuilder) heap)) = None
   \<and> Dispatch serve (fst (Build (\<lambda>u. Inl e) (Endpoints [ep] NewDispatchBuilder) heap))
       \<lparr>Path = [], Header = h\<rparr> w = Some (Inl IndexOutOfRange)"
  by (simp add: Dispatch_no_slash Build_def Endpoints_def NewDispatchBuilder_def
      configureRoutes_def compile_def newProxyStageHandler_def
      newAuthenticatingProxyStageHandler_def)

text \<open>
  C1. The claim is that routes are indexed by the endpoint's route key. The endpoint
  \<open>svc1\<close> of the spec's scenario (name \<open>svc1\<close>, key \<open>service1\<close>) is a valid
  configuration, yet a request for \<open>/service1/anything\<close> is answered 404 by the built
  dispatcher, whatever the URL parser does: the table is indexed by the name. With a
  parser that accepts the URL, it is the request for \<open>/svc1/anything\<close> that reaches the
  proxy of the endpoint.
\<close>

theorem route_indexed_by_Name_not_Key:
  "validateEndpoints [svc1] = (True, None)
   \<and> Dispatch serve (fst (Build url_Parse (Endpoints [svc1] NewDispatchBuilder) heap))
       \<lparr>Path = ''/service1/anything'', Header = Map.empty\<rparr> (fresh out) =
     Some (Inr \<lparr>rw = \<lparr>status = Some 404, written = ''not found: 404''\<rparr>, outside = out\<rparr>)
   \<and> Dispatch serve (fst (Build Inr (Endpoints [svc1] NewDispatchBuilder) heap))
       \<lparr>Path = ''/svc1/anything'', Header = Map.empty\<rparr> (fresh out) =
     Some (Inr (serve \<lparr>rp_Target = ''http://localhost:8181'', rp_Transport = Some (length heap)\<rparr>
                  \<lparr>Path = ''/svc1/anything'', Header = Map.empty\<rparr> (fresh out)))"
proof -
  have v: "validateEndpoints [svc1] = (True, None)"
    by (simp add: validateEndpoints_def valid_def svc1_def)
  have key: "Dispatch serve (fst (Build url_Parse (Endpoints [svc1] NewDispatchBuilder) heap))
       \<lparr>Path = ''/service1/anything'', Header = Map.empty\<rparr> (fresh out) =
     Some (Inr \<lparr>rw = \<lparr>status = Some 404, written = ''not found: 404''\<rparr>, outside = out\<rparr>)"
  proof (cases "url_Parse (URL svc1)")
    case (Inl e)
    then show ?thesis
      by (simp add: svc1_def Build_def Endpoints_def NewDispatchBuilder_def
          configureRoutes_def compile_def newProxyStageHandler_def
          Dispatch_def Let_def lookup_def fresh_def sendError_NotFound_fresh)
  next
    case (Inr u)
    then show ?thesis
      by (simp add: svc1_def Build_def Endpoints_def NewDispatchBuilder_def
          configureRoutes_def compile_def newProxyStageHandler_def newCbTransport_def
          Dispatch_def Let_def lookup_def fresh_def sendError_NotFound_fresh)
  qed
  have name: "Dispatch serve (fst (Build Inr (Endpoints [svc1] NewDispatchBuilder) heap))
       \<lparr>Path = ''/svc1/anything'', Header = Map.empty\<rparr> (fresh out) =
     Some (Inr (serve \<lparr>rp_Target = ''http://localhost:8181'', rp_Transport = Some (length heap)\<rparr>
                  \<lparr>Path = ''/svc1/anything'', Header = Map.empty\<rparr> (fresh out)))"
    by (simp add: svc1_def Build_def Endpoints_def NewDispatchBuilder_def
        configureRoutes_def compile_def newProxyStageHandler_def newCbTransport_def
        Dispatch_def Let_def lookup_def Dispatch_loop.simps)
  from v key name show ?thesis
    by simp
qed


section \<open>Stage chains\<close>

lemma Dispatch_loop_Some:
  "Dispatch_loop serve d m (Some s) r w =
     (case call serve d (ExecHandler s) r w of
        Inl p \<Rightarrow> Some (Inl p)
      | Inr (ok, w') \<Rightarrow>
          if \<not> ok then Some (Inr w')
          else Dispatch_loop serve d m (Next (StageHandler m)) r w')"
  by (subst Dispatch_loop.simps) simp

text \<open>\<open>StageHandler.Execute\<close> walks every chain as the spec says.\<close>

lemma Execute_walk:
  "StageHandler_Execute serve d sh r w = chain_walk serve d (stages_of sh) r w"
  by (induction serve d sh r w rule: StageHandler_Execute.induct)
     (auto split: sum.splits option.splits)

text \<open>
  C3. For every chain that route compilation produces (\<open>compile\<close> returned it for some
  endpoint) and every request dispatched to the route holding it, the loop of
  \<open>Dispatch\<close> returns, and what it does is the walk of the chain's stages from front to
  back: a stage returning false halts the chain, a stage returning true passes control
  to the next stage, the last stage ends the chain whatever it returns. So does
  \<open>StageHandler.Execute\<close>, and so does \<open>Dispatch\<close> itself on a request whose path
  selects that route.
\<close>

theorem compiled_chain_runs_in_order:
  assumes "compile url_Parse ep s = (Inr sh, s')"
    and "StageHandler m = sh"
  shows "Dispatch_loop serve d m (Some sh) r w = Some (chain_walk serve d (stages_of sh) r w)
       \<and> StageHandler_Execute serve d sh r w = chain_walk serve d (stages_of sh) r w
       \<and> (CHR ''/'' \<in> set (Path r) \<and> lookup d (Split (Path r) CHR ''/'' ! 1) = Some m \<longrightarrow>
            Dispatch serve d r w = Some (chain_walk serve d (stages_of sh) r w))"
proof -
  obtain rp where sh: "sh = (if Authenticate_ep ep
      then Stage AuthExec (Some (Stage (ProxyExec rp) None)) else Stage (ProxyExec rp) None)"
    using compile_shape [OF assms(1)] by blast
  have "Dispatch_loop serve d m (Some sh) r w = Some (chain_walk serve d (stages_of sh) r w)"
  proof (cases "Authenticate_ep ep")
    case False
    with sh show ?thesis
      by (simp add: Dispatch_loop_Some)
  next
    case True
    with sh assms(2) show ?thesis
      by (simp add: Dispatch_loop_Some split: sum.splits option.splits prod.splits)
  qed
  then show ?thesis
    using assms(2) by (auto simp add: Execute_walk Dispatch_found)
qed

lemmas run_simps =
  stub_authHandler_def newJWTAuthHandler_def Authenticate_def splitToken_def numeral_2_eq_2
  ToLower_def lower_char_def stub_jwt_def NewJWTAuthenticator_def stub_serve_def fresh_def
  WriteHeader_def Write_def Let_def

text \<open>
  The scenario, step by step: compiling \<open>svc1\<close> from the builder's start allocates the
  handle 0, compiling \<open>svc2\<close> after it allocates the handle 1, and the built dispatcher
  holds the two routes under the endpoints' names.
\<close>

lemma compile_svc1:
  "compile Inr svc1
     ((dispatcher (AuthHandler (Some stub_authHandler) NewDispatchBuilder))
        \<lparr>transports := Map.empty\<rparr>, []) =
     (Inr (Stage (ProxyExec
             \<lparr>rp_Target = ''http://localhost:8181'', rp_Transport = Some 0\<rparr>) None),
      ((dispatcher (AuthHandler (Some stub_authHandler) NewDispatchBuilder))
         \<lparr>transports := [''svc1'' \<mapsto> 0]\<rparr>,
       [\<lparr>Transport = newTransport (proxyConfig (dispatcher NewDispatchBuilder)),
         CircuitBreaker = None\<rparr>]))"
  by (simp add: compile_def newProxyStageHandler_def newCbTransport_def newCircuitBreaker_def
      AuthHandler_def NewDispatchBuilder_def svc1_def Let_def)

lemma compile_svc2:
  "compile Inr svc2
     ((dispatcher (AuthHandler (Some stub_authHandler) NewDispatchBuilder))
        \<lparr>transports := [''svc1'' \<mapsto> 0]\<rparr>,
      [\<lparr>Transport = newTransport (proxyConfig (dispatcher NewDispatchBuilder)),
        CircuitBreaker = None\<rparr>]) =
     (Inr (Stage AuthExec (Some (Stage (ProxyExec
             \<lparr>rp_Target = ''http://localhost:8282'', rp_Transport = Some 1\<rparr>) None))),
      ((dispatcher (AuthHandler (Some stub_authHandler) NewDispatchBuilder))
         \<lparr>transports := [''svc1'' \<mapsto> 0, ''svc2'' \<mapsto> 1]\<rparr>,
       [\<lparr>Transport = newTransport (proxyConfig (dispatcher NewDispatchBuilder)),
         CircuitBreaker = None\<rparr>,
        \<lparr>Transport = newTransport (proxyConfig (dispatcher NewDispatchBuilder)),
         CircuitBreaker = None\<rparr>]))"
  by (simp add: compile_def newProxyStageHandler_def
      newAuthenticatingProxyStageHandler_def newCbTransport_def newCircuitBreaker_def
      AuthHandler_def NewDispatchBuilder_def svc2_def Let_def)

lemma scenario_eval:
  "scenario =
     (\<lparr>routes = Some
         [''svc1'' \<mapsto> \<lparr>Endpoint = svc1, StageHandler = Stage (ProxyExec
              \<lparr>rp_Target = ''http://localhost:8181'', rp_Transport = Some 0\<rparr>) None\<rparr>,
          ''svc2'' \<mapsto> \<lparr>Endpoint = svc2, StageHandler = Stage AuthExec (Some (Stage (ProxyExec
              \<lparr>rp_Target = ''http://localhost:8282'', rp_Transport = Some 1\<rparr>) None))\<rparr>],
       authHandler = Some stub_authHandler,
       proxyConfig = proxyConfig (dispatcher NewDispatchBuilder),
       cbConfig = None,
       transports = [''svc1'' \<mapsto> 0, ''svc2'' \<mapsto> 1]\<rparr>,
      [\<lparr>Transport = newTransport (proxyConfig (dispatcher NewDispatchBuilder)),
        CircuitBreaker = None\<rparr>,
       \<lparr>Transport = newTransport (proxyConfig (dispatcher NewDispatchBuilder)),
        CircuitBreaker = None\<rparr>])"
  by (simp add: scenario_def Build_def configureRoutes_def compile_def newProxyStageHandler_def
      newAuthenticatingProxyStageHandler_def newCbTransport_def newCircuitBreaker_def
      AuthHandler_def Endpoints_def NewDispatchBuilder_def svc1_def svc2_def Copy_def Let_def)

theorem compiled_chain_runs_in_order_witness:
  "Dispatch stub_serve (fst scenario)
      \<lparr>Path = ''/svc2/x'', Header = [''Authorization'' \<mapsto> [''Bearer good'']]\<rparr> (fresh []) =
     Some (Inr \<lparr>rw = \<lparr>status = Some 200, written = ''ok''\<rparr>,
                outside = [''http://localhost:8282'']\<rparr>)
   \<and> Dispatch stub_serve (fst scenario)
      \<lparr>Path = ''/svc2/x'', Header = [''Authorization'' \<mapsto> [''Bearer bad'']]\<rparr> (fresh []) =
     Some (Inr \<lparr>rw = \<lparr>status = Some 403, written = ''forbidden''\<rparr>, outside = []\<rparr>)
   \<and> Dispatch stub_serve (fst scenario)
      \<lparr>Path = ''/svc1/x'', Header = Map.empty\<rparr> (fresh []) =
     Some (Inr \<lparr>rw = \<lparr>status = Some 200, written = ''ok''\<rparr>,
                outside = [''http://localhost:8181'']\<rparr>)"
proof -
  let ?sh1 = "Stage (ProxyExec
      \<lparr>rp_Target = ''http://localhost:8181'', rp_Transport = Some 0\<rparr>) None"
  let ?sh2 = "Stage AuthExec (Some (Stage (ProxyExec
      \<lparr>rp_Target = ''http://localhost:8282'', rp_Transport = Some 1\<rparr>) None))"
  let ?m1 = "\<lparr>Endpoint = svc1, StageHandler = ?sh1\<rparr>"
  let ?m2 = "\<lparr>Endpoint = svc2, StageHandler = ?sh2\<rparr>"
  let ?good = "\<lparr>Path = ''/svc2/x'', Header = [''Authorization'' \<mapsto> [''Bearer good'']]\<rparr>"
  let ?bad = "\<lparr>Path = ''/svc2/x'', Header = [''Authorization'' \<mapsto> [''Bearer bad'']]\<rparr>"
  let ?open = "\<lparr>Path = ''/svc1/x'', Header = Map.empty\<rparr>"
  have m1: "StageHandler ?m1 = ?sh1" and m2: "StageHandler ?m2 = ?sh2"
    by simp_all
  have a: "authHandler (fst scenario) = Some stub_authHandler"
    by (simp add: scenario_eval)
  have l1: "CHR ''/'' \<in> set (Path ?open)
      \<and> lookup (fst scenario) (Split (Path ?open) CHR ''/'' ! 1) = Some ?m1"
    and l2: "CHR ''/'' \<in> set (Path ?good)
      \<and> lookup (fst scenario) (Split (Path ?good) CHR ''/'' ! 1) = Some ?m2"
    and l3: "CHR ''/'' \<in> set (Path ?bad)
      \<and> lookup (fst scenario) (Split (Path ?bad) CHR ''/'' ! 1) = Some ?m2"
    by (simp_all add: scenario_eval lookup_def)
  have good: "Dispatch stub_serve (fst scenario) ?good (fresh []) =
      Some (chain_walk stub_serve (fst scenario) (stages_of ?sh2) ?good (fresh []))"
    using compiled_chain_runs_in_order [OF compile_svc2 m2] l2 by blast
  have bad: "Dispatch stub_serve (fst scenario) ?bad (fresh []) =
      Some (chain_walk stub_serve (fst scenario) (stages_of ?sh2) ?bad (fresh []))"
    using compiled_chain_runs_in_order [OF compile_svc2 m2] l3 by blast
  have opn: "Dispatch stub_serve (fst scenario) ?open (fresh []) =
      Some (chain_walk stub_serve (fst scenario) (stages_of ?sh1) ?open (fresh []))"
    using compiled_chain_runs_in_order [OF compile_svc1 m1] l1 by blast
  show ?thesis
    unfolding good bad opn by (simp add: a run_simps)
qed


text \<open>
  The hypothesis of a compiled chain is needed. After a stage that returns true the loop
  of \<open>Dispatch\<close> goes on with the second stage of the route's chain, whichever stage it
  has just run. No compiled chain shows the difference, but on a chain of two
  authenticating stages with a handler that accepts, the loop runs the second stage
  over and over and never returns, where \<open>StageHandler.Execute\<close> walks the chain and
  ends.
\<close>

lemma Dispatch_loop_second_stage_again:
  assumes "authHandler d = Some h" and "h r = Inr (True, None)"
    and "StageHandler m = Stage AuthExec (Some (Stage AuthExec nxt))"
  shows "Dispatch_loop serve d m (Some (Stage AuthExec nxt)) r w = None"
proof (rule ccontr)
  assume "Dispatch_loop serve d m (Some (Stage AuthExec nxt)) r w \<noteq> None"
  then obtain y where y: "Dispatch_loop serve d m (Some (Stage AuthExec nxt)) r w = Some y"
    by auto
  have "\<not> (d = d \<and> m = m \<and> Some (Stage AuthExec nxt) = Some (Stage AuthExec nxt) \<and> r = r)"
  proof (rule Dispatch_loop.raw_induct
      [where P = "\<lambda>serve' d' m' sh' r' w' y'.
          \<not> (d' = d \<and> m' = m \<and> sh' = Some (Stage AuthExec nxt) \<and> r' = r)", OF _ y])
    fix f :: "(ReverseProxy \<Rightarrow> Request \<Rightarrow> 'a World \<Rightarrow> 'a World) \<Rightarrow> Dispatcher \<Rightarrow> Route \<Rightarrow>
        StageHandler option \<Rightarrow> Request \<Rightarrow> 'a World \<Rightarrow> (panic + 'a World) option"
    fix serve' d' m' sh' r' w' y'
    assume IH: "\<And>serve' d' m' sh' r' w' y'. f serve' d' m' sh' r' w' = Some y' \<Longrightarrow>
        \<not> (d' = d \<and> m' = m \<and> sh' = Some (Stage AuthExec nxt) \<and> r' = r)"
    assume step: "(case sh' of None \<Rightarrow> Some (Inr w')
      | Some s \<Rightarrow>
          case call serve' d' (ExecHandler s) r' w' of Inl p \<Rightarrow> Some (Inl p)
          | Inr (ok, w'') \<Rightarrow>
              if \<not> ok then Some (Inr w'')
              else f serve' d' m' (Next (StageHandler m')) r' w'') = Some y'"
    show "\<not> (d' = d \<and> m' = m \<and> sh' = Some (Stage AuthExec nxt) \<and> r' = r)"
    proof
      assume a: "d' = d \<and> m' = m \<and> sh' = Some (Stage AuthExec nxt) \<and> r' = r"
      with step assms have "f serve' d m (Some (Stage AuthExec nxt)) r w' = Some y'"
        by simp
      with IH show False
        by blast
    qed
  qed
  then show False
    by simp
qed

lemma Dispatch_loop_need_not_return:
  assumes "authHandler d = Some h" and "h r = Inr (True, None)"
    and "StageHandler m = Stage AuthExec (Some (Stage AuthExec None))"
  shows "Dispatch_loop serve d m (Some (StageHandler m)) r w = None
       \<and> StageHandler_Execute serve d (StageHandler m) r w = Inr w"
proof -
  have "Dispatch_loop serve d m (Some (StageHandler m)) r w =
      Dispatch_loop serve d m (Some (Stage AuthExec None)) r w"
    by (subst Dispatch_loop_Some) (simp add: assms)
  then have "Dispatch_loop serve d m (Some (StageHandler m)) r w = None"
    using Dispatch_loop_second_stage_again [OF assms, of serve w] by simp
  moreover have "StageHandler_Execute serve d (StageHandler m) r w = Inr w"
    by (simp add: assms)
  ultimately show ?thesis
    by simp
qed


section \<open>The authenticating stage\<close>

lemma newJWTAuthHandler_no_header:
  "Header r ''Authorization'' = None \<Longrightarrow>
   newJWTAuthHandler a r = Inr (False, Some UnAuthorized)"
  by (simp add: newJWTAuthHandler_def)

text \<open>
  C4. A request is dispatched to the route of an endpoint that requires
  authentication, and the auth handler returns failure with or without an HTTP error.
  Then the auth stage returns false, and \<open>Dispatch\<close> returns with only that stage run:
  the world beyond the gateway is untouched whatever the reverse proxy would do, so no
  backend is contacted, and on a response writer with nothing written yet the response
  is the \<open>denial\<close>: 403 with the body \<open>forbidden\<close> when no HTTP error is carried, and
  otherwise the carried message under the carried code. In particular, with the JWT
  handler a request without an \<open>Authorization\<close> header is answered 401
  \<open>unauthorized\<close>.
\<close>

theorem auth_failure_halts_chain:
  assumes "compile url_Parse ep s = (Inr sh, s')"
    and "Authenticate_ep ep"
    and "CHR ''/'' \<in> set (Path r)"
    and "lookup d (Split (Path r) CHR ''/'' ! 1) = Some m"
    and "StageHandler m = sh"
    and "authHandler d = Some h"
    and "h r = Inr (False, httpErr)"
  shows "call serve d (ExecHandler sh) r (fresh out) =
           Inr (False, \<lparr>rw = denial httpErr, outside = out\<rparr>)
       \<and> Dispatch serve d r (fresh out) = Some (Inr \<lparr>rw = denial httpErr, outside = out\<rparr>)
       \<and> (\<forall>a :: 't Authenticator.
            h = newJWTAuthHandler a \<and> Header r ''Authorization'' = None \<longrightarrow>
            Dispatch serve d r (fresh out) =
              Some (Inr \<lparr>rw = \<lparr>status = Some 401, written = ''unauthorized''\<rparr>,
                         outside = out\<rparr>))"
proof -
  obtain rp where sh: "sh = Stage AuthExec (Some (Stage (ProxyExec rp) None))"
    using compile_shape [OF assms(1)] assms(2) by auto
  have long: "\<not> length (Split (Path r) CHR ''/'') \<le> 1"
    using assms(3) by (simp add: Split_short)
  have run: "Dispatch serve d r w = Dispatch_loop serve d m (Some sh) r w" for w
    using long assms(4,5) by (simp add: Dispatch_def Let_def)
  have stage: "call serve d (ExecHandler sh) r (fresh out) =
      Inr (False, \<lparr>rw = denial httpErr, outside = out\<rparr>)"
    unfolding sh using assms(6,7)
    by (simp add: fresh_def denial_def WriteHeader_def Write_def Let_def split: option.splits)
  have first: "Dispatch serve d r (fresh out) =
      Some (Inr \<lparr>rw = denial httpErr, outside = out\<rparr>)"
    unfolding run using stage by (simp add: Dispatch_loop_Some)
  have "Dispatch serve d r (fresh out) =
      Some (Inr \<lparr>rw = \<lparr>status = Some 401, written = ''unauthorized''\<rparr>, outside = out\<rparr>)"
    if "h = newJWTAuthHandler a" and "Header r ''Authorization'' = None"
    for a :: "'t Authenticator"
  proof -
    have "httpErr = Some UnAuthorized"
      using assms(7) that by (simp add: newJWTAuthHandler_no_header)
    then show ?thesis
      using first by (simp add: denial_def UnAuthorized_def)
  qed
  with stage first show ?thesis
    by blast
qed

theorem auth_failure_halts_chain_witness:
  "Dispatch stub_serve (fst scenario)
      \<lparr>Path = ''/svc2/x'', Header = Map.empty\<rparr> (fresh []) =
     Some (Inr \<lparr>rw = \<lparr>status = Some 401, written = ''unauthorized''\<rparr>, outside = []\<rparr>)
   \<and> Dispatch stub_serve (fst scenario)
      \<lparr>Path = ''/svc2/x'', Header = [''Authorization'' \<mapsto> [''Bearer bad'']]\<rparr> (fresh []) =
     Some (Inr \<lparr>rw = \<lparr>status = Some 403, written = ''forbidden''\<rparr>, outside = []\<rparr>)"
proof -
  let ?sh = "Stage AuthExec (Some (Stage (ProxyExec
      \<lparr>rp_Target = ''http://localhost:8282'', rp_Transport = Some 1\<rparr>) None))"
  let ?m = "\<lparr>Endpoint = svc2, StageHandler = ?sh\<rparr>"
  let ?r1 = "\<lparr>Path = ''/svc2/x'', Header = Map.empty\<rparr>"
  let ?r2 = "\<lparr>Path = ''/svc2/x'', Header = [''Authorization'' \<mapsto> [''Bearer bad'']]\<rparr>"
  have auth: "Authenticate_ep svc2"
    by (simp add: svc2_def)
  have slash1: "CHR ''/'' \<in> set (Path ?r1)" and slash2: "CHR ''/'' \<in> set (Path ?r2)"
    by simp_all
  have l1: "lookup (fst scenario) (Split (Path ?r1) CHR ''/'' ! 1) = Some ?m"
    and l2: "lookup (fst scenario) (Split (Path ?r2) CHR ''/'' ! 1) = Some ?m"
    by (simp_all add: scenario_eval lookup_def)
  have m: "StageHandler ?m = ?sh"
    by simp
  have h: "authHandler (fst scenario) = Some stub_authHandler"
    by (simp add: scenario_eval)
  have f1: "stub_authHandler ?r1 = Inr (False, Some UnAuthorized)"
    by (simp add: stub_authHandler_def newJWTAuthHandler_def)
  have f2: "stub_authHandler ?r2 = Inr (False, None)"
    by (simp add: run_simps)
  show ?thesis
    using auth_failure_halts_chain [where 't = string,
        OF compile_svc2 auth slash1 l1 m h f1, of stub_serve "[]"]
      auth_failure_halts_chain [where 't = string,
        OF compile_svc2 auth slash2 l2 m h f2, of stub_serve "[]"]
    by (simp add: denial_def UnAuthorized_def)
qed


section \<open>Transport handles\<close>

text \<open>
  What compiling one endpoint does to the table of transports and to the store: nothing
  on an error; on success the chain's proxy holds the handle registered under the
  endpoint's transport name, which is the one already there, or else a handle allocated
  now at the next address.
\<close>

lemma compile_transports:
  assumes "compile P e (d, heap) = (res, (d', heap'))"
  shows "(\<exists>err. res = Inl err \<and> d' = d \<and> heap' = heap)
       \<or> (\<exists>sh a. res = Inr sh \<and> handle_of sh = Some a
              \<and> transports d (transport_name e) = Some a \<and> d' = d \<and> heap' = heap)
       \<or> (\<exists>sh x. res = Inr sh \<and> handle_of sh = Some (length heap)
              \<and> transports d (transport_name e) = None
              \<and> d' = d\<lparr>transports := (transports d)(transport_name e \<mapsto> length heap)\<rparr>
              \<and> heap' = heap @ [x])"
  using assms
  by (auto simp add: compile_def newAuthenticatingProxyStageHandler_def
      newProxyStageHandler_def newCbTransport_def transport_name_def Let_def map_upd_triv
      split: if_splits sum.splits prod.splits option.splits)

text \<open>
  The invariant of the loop: the table maps names one-to-one onto the handles allocated
  since \<open>base\<close>, entries are never replaced, and every compiled chain holds the handle
  that the final table has under its endpoint's transport name.
\<close>

lemma loop_handles:
  assumes "configureRoutes_loop P eps rts (d, heap) = (res, (d1, heap1))"
    and "inj_on (transports d) (dom (transports d))"
    and "ran (transports d) = {base ..< length heap}"
    and "base \<le> length heap"
  shows "inj_on (transports d1) (dom (transports d1))
       \<and> ran (transports d1) = {base ..< length heap1}
       \<and> base \<le> length heap1
       \<and> transports d \<subseteq>\<^sub>m transports d1
       \<and> dom (transports d1) =
           dom (transports d) \<union> transport_name ` fst ` set (compiled P eps (d, heap))
       \<and> (\<forall>(e, sh) \<in> set (compiled P eps (d, heap)).
            handle_of sh \<noteq> None \<and> handle_of sh = transports d1 (transport_name e))"
  using assms
proof (induction eps arbitrary: rts d heap)
  case Nil
  then show ?case by simp
next
  case (Cons ep eps)
  obtain c d' heap' where c: "compile P ep (d, heap) = (c, (d', heap'))"
    by (cases "compile P ep (d, heap)") auto
  from compile_transports [OF c] consider
      (fail) err where "c = Inl err" "d' = d" "heap' = heap"
    | (reuse) sh a where "c = Inr sh" "handle_of sh = Some a"
        "transports d (transport_name ep) = Some a" "d' = d" "heap' = heap"
    | (new) sh x where "c = Inr sh" "handle_of sh = Some (length heap)"
        "transports d (transport_name ep) = None"
        "d' = d\<lparr>transports := (transports d)(transport_name ep \<mapsto> length heap)\<rparr>"
        "heap' = heap @ [x]"
    by blast
  then show ?case
  proof cases
    case fail
    with Cons.prems c show ?thesis
      by simp
  next
    case reuse
    from Cons.prems(1) c reuse have run: "configureRoutes_loop P eps
        (rts(Name ep \<mapsto> \<lparr>Endpoint = Copy ep, StageHandler = sh\<rparr>)) (d, heap) = (res, (d1, heap1))"
      by simp
    note IH = Cons.IH [OF run Cons.prems(2,3,4)]
    from IH have le: "transports d \<subseteq>\<^sub>m transports d1"
      by simp
    have at: "transports d1 (transport_name ep) = Some a"
      using le reuse(3) by (auto simp add: map_le_def dom_def)
    have "transport_name ep \<in> dom (transports d)"
      using reuse(3) by auto
    with IH at c reuse show ?thesis
      by auto
  next
    case new
    define d2 where "d2 = d\<lparr>transports := (transports d)(transport_name ep \<mapsto> length heap)\<rparr>"
    have t2: "transports d2 = (transports d)(transport_name ep \<mapsto> length heap)"
      by (simp add: d2_def)
    from Cons.prems(1) c new have run: "configureRoutes_loop P eps
        (rts(Name ep \<mapsto> \<lparr>Endpoint = Copy ep, StageHandler = sh\<rparr>))
        (d2, heap @ [x]) = (res, (d1, heap1))"
      by (simp add: d2_def)
    have fresh_val: "length heap \<notin> ran (transports d)"
      using Cons.prems(3) by simp
    have inj: "inj_on (transports d2) (dom (transports d2))"
      unfolding t2 using Cons.prems(2) fresh_val new(3)
      by (auto simp add: inj_on_def ran_def dom_def)
    have rn: "ran (transports d2) = {base ..< length (heap @ [x])}"
      unfolding t2 using Cons.prems(3,4) new(3) by (auto simp add: ran_map_upd)
    have b: "base \<le> length (heap @ [x])"
      using Cons.prems(4) by simp
    note IH = Cons.IH [OF run inj rn b]
    from IH have le': "transports d2 \<subseteq>\<^sub>m transports d1"
      by blast
    have le: "transports d \<subseteq>\<^sub>m transports d1"
      using le' new(3) unfolding t2 by (auto simp add: map_le_def dom_def split: if_splits)
    have at: "transports d1 (transport_name ep) = Some (length heap)"
      using le' unfolding t2 by (auto simp add: map_le_def dom_def split: if_splits)
    have dm: "dom (transports d2) = insert (transport_name ep) (dom (transports d))"
      unfolding t2 by simp
    have cmp: "compiled P (ep # eps) (d, heap) = (ep, sh) # compiled P eps (d2, heap @ [x])"
      using c new by (simp add: d2_def)
    from IH have i1: "inj_on (transports d1) (dom (transports d1))"
      and i2: "ran (transports d1) = {base ..< length heap1}"
      and i3: "base \<le> length heap1"
      and i5: "dom (transports d1) =
          dom (transports d2) \<union> transport_name ` fst ` set (compiled P eps (d2, heap @ [x]))"
      and i6: "\<forall>(e, sh) \<in> set (compiled P eps (d2, heap @ [x])).
          handle_of sh \<noteq> None \<and> handle_of sh = transports d1 (transport_name e)"
      by blast+
    have d5: "dom (transports d1) =
        dom (transports d) \<union> transport_name ` fst ` set (compiled P (ep # eps) (d, heap))"
      unfolding cmp i5 dm by auto
    have d6: "\<forall>(e, sh) \<in> set (compiled P (ep # eps) (d, heap)).
        handle_of sh \<noteq> None \<and> handle_of sh = transports d1 (transport_name e)"
      unfolding cmp using i6 at new(2) by auto
    from i1 i2 i3 le d5 d6 show ?thesis
      by blast
  qed
qed

lemma card_ran_inj:
  assumes "finite (dom m)" and "inj_on m (dom m)"
  shows "card (ran m) = card (dom m)"
proof -
  have "ran m = (\<lambda>k. the (m k)) ` dom m"
    by (auto simp add: ran_def dom_def image_def)
  moreover have "inj_on (\<lambda>k. the (m k)) (dom m)"
    using assms(2) by (auto simp add: inj_on_def dom_def)
  ultimately show ?thesis
    by (simp add: card_image)
qed

lemma compiled_all:
  "configureRoutes_loop P eps rts s = (Inr rts', s') \<Longrightarrow> map fst (compiled P eps s) = eps"
  by (induction eps arbitrary: rts s) (auto split: prod.splits sum.splits)

text \<open>The compiled endpoints are the route table: each is stored under its name, in order.\<close>

lemma loop_routes:
  "configureRoutes_loop P eps rts s = (Inr rts', s') \<Longrightarrow>
   rts' = fold (\<lambda>(e, sh) m. m(Name e \<mapsto> \<lparr>Endpoint = Copy e, StageHandler = sh\<rparr>))
            (compiled P eps s) rts"
  by (induction eps arbitrary: rts s) (auto split: prod.splits sum.splits)

text \<open>
  C6, as amended. For every endpoint list, in the run of route compilation that \<open>Build\<close>
  starts (an empty table of transports): two compiled endpoints hold the same transport
  handle exactly when their transport names (the declared \<open>sharedTransport\<close>, or else
  the own name) are the same; every handle held is one allocated in this run; the run
  allocates as many handles as there are distinct transport names among the compiled
  endpoints, so at most one per name; and when the run succeeds the compiled endpoints
  are all the endpoints of the list. In particular an endpoint that declares as its
  \<open>sharedTransport\<close> the name of an endpoint that declares none of its own holds that
  endpoint's handle, its pool and its breaker.
\<close>

theorem transport_handle_per_name:
  assumes "configureRoutes_loop P eps rts (d\<lparr>transports := Map.empty\<rparr>, heap) = (res, (d1, heap1))"
  shows "(\<forall>(e1, sh1) \<in> set (compiled P eps (d\<lparr>transports := Map.empty\<rparr>, heap)).
          \<forall>(e2, sh2) \<in> set (compiled P eps (d\<lparr>transports := Map.empty\<rparr>, heap)).
            (transport_name e1 = transport_name e2) = (handle_of sh1 = handle_of sh2))
       \<and> (\<forall>(e, sh) \<in> set (compiled P eps (d\<lparr>transports := Map.empty\<rparr>, heap)).
            \<exists>a. handle_of sh = Some a \<and> length heap \<le> a \<and> a < length heap1)
       \<and> length heap1 = length heap
            + card (transport_name ` fst ` set (compiled P eps (d\<lparr>transports := Map.empty\<rparr>, heap)))
       \<and> (\<forall>rts'. res = Inr rts' \<longrightarrow>
            map fst (compiled P eps (d\<lparr>transports := Map.empty\<rparr>, heap)) = eps)
       \<and> (\<forall>(e1, sh1) \<in> set (compiled P eps (d\<lparr>transports := Map.empty\<rparr>, heap)).
          \<forall>(e2, sh2) \<in> set (compiled P eps (d\<lparr>transports := Map.empty\<rparr>, heap)).
            SharedTransport e1 \<noteq> [] \<and> SharedTransport e1 = Name e2 \<and> SharedTransport e2 = []
            \<longrightarrow> handle_of sh1 = handle_of sh2)"
proof -
  let ?d = "d\<lparr>transports := Map.empty\<rparr>"
  let ?C = "compiled P eps (?d, heap)"
  have inj0: "inj_on (transports ?d) (dom (transports ?d))"
    by simp
  have ran0: "ran (transports ?d) = {length heap ..< length heap}"
    by simp
  note inv = loop_handles [OF assms inj0 ran0 order_refl]
  from inv have inj: "inj_on (transports d1) (dom (transports d1))"
    and rn: "ran (transports d1) = {length heap ..< length heap1}"
    and le: "length heap \<le> length heap1"
    and dm: "dom (transports d1) = transport_name ` fst ` set ?C"
    and at: "\<forall>(e, sh) \<in> set ?C.
        handle_of sh \<noteq> None \<and> handle_of sh = transports d1 (transport_name e)"
    by auto
  have same: "(transport_name e1 = transport_name e2) = (handle_of sh1 = handle_of sh2)"
    if "(e1, sh1) \<in> set ?C" and "(e2, sh2) \<in> set ?C" for e1 sh1 e2 sh2
  proof -
    have h1: "handle_of sh1 = transports d1 (transport_name e1)"
      and h2: "handle_of sh2 = transports d1 (transport_name e2)"
      using at that by auto
    have "transport_name e1 \<in> dom (transports d1)" and "transport_name e2 \<in> dom (transports d1)"
      using dm that by force+
    then show ?thesis
      using inj h1 h2 by (auto simp add: inj_on_def)
  qed
  have range: "\<exists>a. handle_of sh = Some a \<and> length heap \<le> a \<and> a < length heap1"
    if mem: "(e, sh) \<in> set ?C" for e sh
  proof -
    from at mem have "handle_of sh \<noteq> None"
      and "handle_of sh = transports d1 (transport_name e)"
      by auto
    then obtain a where a: "handle_of sh = Some a" "transports d1 (transport_name e) = Some a"
      by auto
    then have "a \<in> ran (transports d1)"
      by (auto simp add: ran_def)
    with rn a show ?thesis
      by simp
  qed
  have fin: "finite (dom (transports d1))"
    unfolding dm by simp
  have "card (dom (transports d1)) = length heap1 - length heap"
    using card_ran_inj [OF fin inj] rn by simp
  with le dm have count: "length heap1 = length heap + card (transport_name ` fst ` set ?C)"
    by simp
  have all: "map fst ?C = eps" if "res = Inr rts'" for rts'
    using assms that compiled_all by blast
  have shared: "handle_of sh1 = handle_of sh2"
    if "(e1, sh1) \<in> set ?C" and "(e2, sh2) \<in> set ?C"
      and "SharedTransport e1 \<noteq> []" and "SharedTransport e1 = Name e2"
      and "SharedTransport e2 = []" for e1 sh1 e2 sh2
  proof -
    have "transport_name e1 = transport_name e2"
      using that(3,4,5) by (simp add: transport_name_def)
    then show ?thesis
      using same [OF that(1,2)] by simp
  qed
  from same range count all shared show ?thesis
    by blast
qed

theorem transport_handle_per_name_witness:
  "SharedTransport service1 \<noteq> [] \<and> SharedTransport service1 = Name service2
   \<and> SharedTransport service2 = []
   \<and> compiled Inr [service1, service2]
        ((dispatcher NewDispatchBuilder)\<lparr>transports := Map.empty\<rparr>, []) =
       [(service1, Stage (ProxyExec
           \<lparr>rp_Target = ''http://localhost:8181'', rp_Transport = Some 0\<rparr>) None),
        (service2, Stage (ProxyExec
           \<lparr>rp_Target = ''http://localhost:8282'', rp_Transport = Some 0\<rparr>) None)]
   \<and> handle_of (Stage (ProxyExec
           \<lparr>rp_Target = ''http://localhost:8181'', rp_Transport = Some 0\<rparr>) None) =
       handle_of (Stage (ProxyExec
           \<lparr>rp_Target = ''http://localhost:8282'', rp_Transport = Some 0\<rparr>) None)
   \<and> length (snd (snd (configureRoutes_loop Inr [service1, service2] Map.empty
        ((dispatcher NewDispatchBuilder)\<lparr>transports := Map.empty\<rparr>, [])))) = 1"
proof -
  let ?s = "((dispatcher NewDispatchBuilder)\<lparr>transports := Map.empty\<rparr>, [])"
  let ?sh1 = "Stage (ProxyExec
      \<lparr>rp_Target = ''http://localhost:8181'', rp_Transport = Some 0\<rparr>) None"
  let ?sh2 = "Stage (ProxyExec
      \<lparr>rp_Target = ''http://localhost:8282'', rp_Transport = Some 0\<rparr>) None"
  obtain res d1 heap1 where run:
    "configureRoutes_loop Inr [service1, service2] Map.empty ?s = (res, (d1, heap1))"
    by (metis surj_pair)
  have c: "compiled Inr [service1, service2] ?s = [(service1, ?sh1), (service2, ?sh2)]"
    by (simp add: compile_def newProxyStageHandler_def newCbTransport_def
        NewDispatchBuilder_def service1_def service2_def Let_def)
  have decl: "SharedTransport service1 \<noteq> []" "SharedTransport service1 = Name service2"
    "SharedTransport service2 = []"
    by (simp_all add: service1_def service2_def)
  have n: "transport_name service1 = transport_name service2"
    by (simp add: transport_name_def service1_def service2_def)
  note t = transport_handle_per_name [OF run, unfolded c]
  from t have "length heap1 =
      length ([] :: Heap) + card (transport_name ` fst ` set [(service1, ?sh1), (service2, ?sh2)])"
    by blast
  then have one: "length heap1 = 1"
    by (simp add: n)
  from t decl have same: "handle_of ?sh1 = handle_of ?sh2"
    by simp
  from run c decl one same show ?thesis
    by simp
qed

text \<open>
  C6 as it was stated fails where sharing is chained. The three endpoints are a valid
  configuration; \<open>chain_a\<close> declares the name of \<open>chain_b\<close> as its shared transport, but
  \<open>chain_b\<close> declares one itself, so the handle of \<open>chain_b\<close> is the one under the name
  \<open>c\<close> while \<open>chain_a\<close> holds another, under the name \<open>b\<close>: the two do not share a pool
  or a breaker.
\<close>

theorem chained_sharing_not_shared:
  "validateEndpoints [chain_a, chain_b, chain_c] = (True, None)
   \<and> SharedTransport chain_a = Name chain_b
   \<and> compiled Inr [chain_a, chain_b, chain_c]
        ((dispatcher NewDispatchBuilder)\<lparr>transports := Map.empty\<rparr>, []) =
       [(chain_a, Stage (ProxyExec
           \<lparr>rp_Target = ''http://localhost:8001'', rp_Transport = Some 0\<rparr>) None),
        (chain_b, Stage (ProxyExec
           \<lparr>rp_Target = ''http://localhost:8002'', rp_Transport = Some 1\<rparr>) None),
        (chain_c, Stage (ProxyExec
           \<lparr>rp_Target = ''http://localhost:8003'', rp_Transport = Some 1\<rparr>) None)]
   \<and> handle_of (Stage (ProxyExec
           \<lparr>rp_Target = ''http://localhost:8001'', rp_Transport = Some 0\<rparr>) None) \<noteq>
       handle_of (Stage (ProxyExec
           \<lparr>rp_Target = ''http://localhost:8002'', rp_Transport = Some 1\<rparr>) None)"
  by (simp add: validateEndpoints_def valid_def compile_def newProxyStageHandler_def
      newCbTransport_def NewDispatchBuilder_def chain_a_def chain_b_def chain_c_def Let_def)


section \<open>The transport behind the breaker\<close>

text \<open>\<open>RoundTrip\<close> with the closure's test written as \<open>server_error\<close>.\<close>

lemma RoundTrip_unfold:
  "RoundTrip failuresToOpen now wire transport request =
     (case CircuitBreaker transport of
        None \<Rightarrow> (wire (Transport transport) request, transport)
      | Some cb \<Rightarrow>
          (case Execute failuresToOpen now cb
                  (\<lambda>_. case wire (Transport transport) request of
                          (r, e) \<Rightarrow> if server_error r
                                    then (None, Some ''500 error for service endpoint'')
                                    else (r, e)) of
             (out, cb') \<Rightarrow> (out, transport\<lparr>CircuitBreaker := Some cb'\<rparr>)))"
  by (auto simp add: RoundTrip_def server_error_def split: option.splits prod.splits)

text \<open>A breaker that rejects returns its own error and does not run the call.\<close>

lemma Execute_rejects:
  "rejects cb \<Longrightarrow>
   Execute failuresToOpen now cb req =
     ((None, Some (if state cb = StateOpen then ErrOpenState else ErrTooManyRequests)), cb)"
  by (cases "state cb") (auto simp add: Execute_def rejects_def)

text \<open>Without a breaker the transport returns what the wire returned, a 5xx included.\<close>

lemma RoundTrip_without_breaker:
  "CircuitBreaker transport = None \<Longrightarrow>
   RoundTrip failuresToOpen now wire transport request =
     (wire (Transport transport) request, transport)"
  by (auto simp add: RoundTrip_unfold split: prod.splits option.splits)

text \<open>
  C2, as amended. A transport with a breaker, on a call whose wire outcome is the
  response \<open>r\<close> and the error \<open>e\<close>. With the breaker Closed, the failure counter after
  the call is one more when the call ended in a network-level error or in a response
  with status in 500..599, and is unchanged on any other outcome. When the breaker does
  not reject the call, a response with a status outside 500..599 is returned exactly as
  the wire produced it (with the wire's error), and a response with status in 500..599
  is not returned: the result is no response and the error
  \<open>500 error for service endpoint\<close>.
\<close>

theorem RoundTrip_counts_and_returns:
  assumes "CircuitBreaker transport = Some cb"
    and "wire (Transport transport) request = (r, e)"
  shows "(state cb = StateClosed \<longrightarrow>
            map_option failures
              (CircuitBreaker (snd (RoundTrip failuresToOpen now wire transport request))) =
              Some (if e \<noteq> None \<or> server_error r then Suc (failures cb) else failures cb))
       \<and> (\<not> rejects cb \<longrightarrow>
            fst (RoundTrip failuresToOpen now wire transport request) =
              (if server_error r then (None, Some ''500 error for service endpoint'')
               else (r, e)))"
  using assms
  by (cases "state cb"; cases e)
     (auto simp add: RoundTrip_unfold Execute_def rejects_def split: prod.splits option.splits)

lemma stub_transport_eval:
  "stub_transport =
     \<lparr>Transport = newTransport (proxyConfig (dispatcher NewDispatchBuilder)),
      CircuitBreaker = Some
        \<lparr>settings = \<lparr>Name_cb = ''crctbrkr-svc1'', MaxRequests = 1,
                      Interval = 10000 * Millisecond, Timeout = 5000 * Millisecond\<rparr>,
         state = StateClosed, failures = 0, trials = 0, since = 0, cleared = 0\<rparr>\<rparr>"
  by (simp add: stub_transport_def newCbTransport_def newCircuitBreaker_def
      NewCircuitBreaker_def stub_cbConfig_def)

theorem RoundTrip_counts_and_returns_witness:
  "map_option failures
     (CircuitBreaker (snd (RoundTrip 3 0 (stub_wire 503) stub_transport stub_request))) = Some 1
   \<and> map_option failures
     (CircuitBreaker (snd (RoundTrip 3 0 (stub_wire 200) stub_transport stub_request))) = Some 0
   \<and> fst (RoundTrip 3 0 (stub_wire 200) stub_transport stub_request) =
       (Some \<lparr>StatusCode = 200, Body = ''from the backend''\<rparr>, None)"
proof -
  let ?cb = "\<lparr>settings = \<lparr>Name_cb = ''crctbrkr-svc1'', MaxRequests = 1,
                      Interval = 10000 * Millisecond, Timeout = 5000 * Millisecond\<rparr>,
         state = StateClosed, failures = 0, trials = 0, since = 0, cleared = 0\<rparr>"
  have cb: "CircuitBreaker stub_transport = Some ?cb"
    by (simp add: stub_transport_eval)
  have w503: "stub_wire 503 (Transport stub_transport) stub_request =
      (Some \<lparr>StatusCode = 503, Body = ''from the backend''\<rparr>, None)"
    and w200: "stub_wire 200 (Transport stub_transport) stub_request =
      (Some \<lparr>StatusCode = 200, Body = ''from the backend''\<rparr>, None)"
    by (simp_all add: stub_wire_def)
  show ?thesis
    using RoundTrip_counts_and_returns [where wire = "stub_wire 503"
        and transport = stub_transport and request = stub_request
        and failuresToOpen = 3 and now = 0, OF cb w503]
      RoundTrip_counts_and_returns [where wire = "stub_wire 200"
        and transport = stub_transport and request = stub_request
        and failuresToOpen = 3 and now = 0, OF cb w200]
    by (simp add: server_error_def rejects_def)
qed

text \<open>
  C2 as it was stated fails on a 5xx response: the breaker is Closed and rejects
  nothing, the backend answers 503, and \<open>RoundTrip\<close> returns no response at all, with
  an error of its own in its place.
\<close>

theorem server_error_not_returned:
  "state (the (CircuitBreaker stub_transport)) = StateClosed
   \<and> stub_wire 503 (Transport stub_transport) stub_request =
       (Some \<lparr>StatusCode = 503, Body = ''from the backend''\<rparr>, None)
   \<and> fst (RoundTrip 3 0 (stub_wire 503) stub_transport stub_request) =
       (None, Some ''500 error for service endpoint'')
   \<and> fst (RoundTrip 3 0 (stub_wire 503) stub_transport stub_request) \<noteq>
       stub_wire 503 (Transport stub_transport) stub_request"
  by (simp add: RoundTrip_unfold Execute_def stub_transport_eval stub_wire_def
      server_error_def)

end
